theory Spec2Isabelle
  imports Complex_Main "HOL-Library.Sublist"
begin

section \<open>Data model (types/chat.ts and the React Flow node and edge shapes)\<close>

text \<open>
  \<^verbatim>\<open>MessageRole = "user" | "assistant" | "system"\<close>. A \<^verbatim>\<open>ChatMessage\<close> is what the context
  resolver returns and what is sent to the backend: a role and a content string.
\<close>

datatype MessageRole = User | Assistant | System

record ChatMessage =
  msg_role :: MessageRole
  msg_content :: string

text \<open>
  JavaScript numbers are modelled as reals: the engine only copies coordinates and compares
  timestamps, it never relies on rounding. A closure stored in node data is modelled by the
  values it captures: \<^verbatim>\<open>onSend = (text) => handleSend(text, parentId, inputId)\<close> is the pair
  \<open>(parentId, inputId)\<close>, \<^verbatim>\<open>onCancel\<close> is the id of the input node it removes.
\<close>

record XYPosition =
  pos_x :: real
  pos_y :: real

record ChatNodeData =
  label :: "string option"
  content :: string
  role :: MessageRole
  timestamp :: real
  isInput :: "bool option"
  onSend :: "(string \<times> string) option"
  onCancel :: "string option"

record ChatNode =
  node_id :: string
  node_type :: string
  position :: XYPosition
  origin :: "(real \<times> real) option"
  data :: ChatNodeData

datatype EdgeMarker = Marker string

record Edge =
  edge_id :: string
  source :: string
  target :: string
  edge_type :: "string option"
  markerEnd :: "EdgeMarker option"
  sourceHandle :: "string option"
  targetHandle :: "string option"

record Viewport =
  vp_x :: real
  vp_y :: real
  vp_zoom :: real

text \<open>The snapshot held by \<^verbatim>\<open>useNodesState\<close>, \<^verbatim>\<open>useEdgesState\<close> and the React Flow viewport.\<close>

record graph =
  nodes :: "ChatNode list"
  edges :: "Edge list"
  viewport :: Viewport

section \<open>Context resolver\<close>

text \<open>
  \<^verbatim>\<open>getContextForNode(nodeId, currentNodes, currentEdges)\<close>: the \<^verbatim>\<open>while (currentNodeId)\<close> loop.
  \<^verbatim>\<open>currentNodeId\<close> is \<^verbatim>\<open>string | null\<close>; both \<^verbatim>\<open>null\<close> and the empty string are falsy and
  end the loop. \<^verbatim>\<open>history.unshift\<close> puts the message in front. The loop has no bound of its
  own, so it is a partial function: \<open>None\<close> is "never returns".
\<close>

partial_function (option) context_loop ::
  "ChatNode list \<Rightarrow> Edge list \<Rightarrow> string option \<Rightarrow> ChatMessage list \<Rightarrow> ChatMessage list option"
where
  "context_loop currentNodes currentEdges currentNodeId history =
     (case currentNodeId of
        None \<Rightarrow> Some history
      | Some cur \<Rightarrow>
          if cur = [] then Some history
          else (case find (\<lambda>n. node_id n = cur) currentNodes of
                  None \<Rightarrow> Some history
                | Some node \<Rightarrow>
                    let history' =
                          (if node_type node = ''message''
                           then \<lparr>msg_role = role (data node), msg_content = content (data node)\<rparr> # history
                           else history);
                        parentEdge = find (\<lambda>e. target e = cur) currentEdges
                    in context_loop currentNodes currentEdges
                         (case parentEdge of Some pe \<Rightarrow> Some (source pe) | None \<Rightarrow> None)
                         history'))"

definition getContextForNode :: "string \<Rightarrow> ChatNode list \<Rightarrow> Edge list \<Rightarrow> ChatMessage list option" where
  "getContextForNode nodeId currentNodes currentEdges =
     context_loop currentNodes currentEdges (Some nodeId) []"

subsection \<open>The ancestor chain, stated on its own\<close>

text \<open>
  The parent of a node is the source of the first edge whose target is the node.
  \<open>ancestor_path ns es v p\<close>: the list \<open>p\<close> starts at \<open>v\<close>, every next entry is the parent of
  the one before, the last entry has no incoming edge, and every id on it is non-empty and
  names a node of \<open>ns\<close>. \<open>chain_messages\<close> reads off the (role, content) pairs of the
  message-type nodes of a list of ids, in the order of the list.
\<close>

definition parent_of :: "Edge list \<Rightarrow> string \<Rightarrow> string option" where
  "parent_of es v = map_option source (find (\<lambda>e. target e = v) es)"

fun ancestor_path :: "ChatNode list \<Rightarrow> Edge list \<Rightarrow> string \<Rightarrow> string list \<Rightarrow> bool" where
  "ancestor_path ns es v [] = False"
| "ancestor_path ns es v (u # rest) =
     (u = v \<and> v \<noteq> [] \<and> find (\<lambda>n. node_id n = v) ns \<noteq> None \<and>
      (case parent_of es v of
         None \<Rightarrow> rest = []
       | Some w \<Rightarrow> rest \<noteq> [] \<and> ancestor_path ns es w rest))"

definition message_of :: "ChatNode list \<Rightarrow> string \<Rightarrow> ChatMessage list" where
  "message_of ns v =
     (case find (\<lambda>n. node_id n = v) ns of
        None \<Rightarrow> []
      | Some node \<Rightarrow>
          if node_type node = ''message''
          then [\<lparr>msg_role = role (data node), msg_content = content (data node)\<rparr>]
          else [])"

definition chain_messages :: "ChatNode list \<Rightarrow> string list \<Rightarrow> ChatMessage list" where
  "chain_messages ns p = concat (map (message_of ns) p)"

text \<open>A one-node graph whose only edge is a self-loop, used below.\<close>

definition loop_node :: ChatNode where
  "loop_node = \<lparr>node_id = ''a'', node_type = ''message'',
     position = \<lparr>pos_x = 0, pos_y = 0\<rparr>, origin = None,
     data = \<lparr>label = None, content = ''hi'', role = User, timestamp = 1,
             isInput = None, onSend = None, onCancel = None\<rparr>\<rparr>"

definition loop_edge :: Edge where
  "loop_edge = \<lparr>edge_id = ''e-a-a'', source = ''a'', target = ''a'',
     edge_type = None, markerEnd = None, sourceHandle = None, targetHandle = None\<rparr>"

section \<open>Branch controller\<close>

text \<open>
  The sources hold two versions of the hook \<^verbatim>\<open>useChatGraph\<close>. \<^verbatim>\<open>getContextForNode\<close>,
  \<^verbatim>\<open>serializeState\<close> and the state updates of \<^verbatim>\<open>handleSend\<close> are the same in both, up to where
  the later one places the assistant node; they and \<^verbatim>\<open>importState\<close> are taken from the earlier
  version. Cancelling an input node exists in the later version only, so \<^verbatim>\<open>onConnectEnd\<close> and
  \<^verbatim>\<open>onCancel\<close> are taken from there.
\<close>

text \<open>
  Node ids are minted from the clock: \<^verbatim>\<open>`input-${Date.now()}`\<close> and \<^verbatim>\<open>`ai-${Date.now()}`\<close>.
  \<^verbatim>\<open>Date.now()\<close> is a non-negative integer read from the environment, so every operation
  that reads it takes the reading as an argument; the template literal prints it in decimal.
\<close>

definition digit_char :: "nat \<Rightarrow> char" where
  "digit_char d = ''0123456789'' ! d"

fun show_nat :: "nat \<Rightarrow> string" where
  "show_nat n = (if n < 10 then [digit_char n] else show_nat (n div 10) @ [digit_char (n mod 10)])"

declare show_nat.simps [simp del]

definition input_id :: "nat \<Rightarrow> string" where
  "input_id now = ''input-'' @ show_nat now"

definition ai_id :: "nat \<Rightarrow> string" where
  "ai_id now = ''ai-'' @ show_nat now"

text \<open>\<^verbatim>\<open>getInitialNodes()\<close>: the single root node, with its fixed greeting.\<close>

definition root_greeting :: string where
  "root_greeting = ''Hello! I am your graph-based AI assistant. Drag from this node to start a new conversation branch.''"

definition getInitialNodes :: "nat \<Rightarrow> ChatNode list" where
  "getInitialNodes now =
     [\<lparr>node_id = ''root'', node_type = ''message'',
       position = \<lparr>pos_x = 250, pos_y = 50\<rparr>, origin = None,
       data = \<lparr>label = None,
               content = root_greeting,
               role = Assistant, timestamp = real now,
               isInput = None, onSend = None, onCancel = None\<rparr>\<rparr>]"

text \<open>
  \<^verbatim>\<open>addEdge\<close> is imported from the React Flow package and is not part of the repository's
  sources; the definition follows the library: an edge without a source or a target is
  dropped, an edge that repeats an existing connection (same source and target, and the same
  handles, two missing or empty handles counting as the same) is dropped, any other edge is
  appended.
\<close>

definition falsy_handle :: "string option \<Rightarrow> bool" where
  "falsy_handle h = (h = None \<or> h = Some [])"

definition connectionExists :: "Edge \<Rightarrow> Edge list \<Rightarrow> bool" where
  "connectionExists edge es =
     list_ex (\<lambda>el. source el = source edge \<and> target el = target edge \<and>
        (sourceHandle el = sourceHandle edge \<or> (falsy_handle (sourceHandle el) \<and> falsy_handle (sourceHandle edge))) \<and>
        (targetHandle el = targetHandle edge \<or> (falsy_handle (targetHandle el) \<and> falsy_handle (targetHandle edge)))) es"

definition addEdge :: "Edge \<Rightarrow> Edge list \<Rightarrow> Edge list" where
  "addEdge edgeParams es =
     (if source edgeParams = [] \<or> target edgeParams = [] then es
      else if connectionExists edgeParams es then es
      else es @ [edgeParams])"

definition ArrowClosed :: EdgeMarker where
  "ArrowClosed = Marker ''arrowclosed''"

text \<open>
  \<^verbatim>\<open>onConnectEnd\<close> (the version with \<^verbatim>\<open>onCancel\<close>): \<open>connectingNodeId\<close> and
  \<open>connectingHandleId\<close> are the two refs, \<open>targetIsPane\<close> the class test on the event target,
  \<open>dropPosition\<close> the result of \<^verbatim>\<open>screenToFlowPosition\<close>; \<open>now_id\<close> and \<open>now_ts\<close> are the two
  readings of \<^verbatim>\<open>Date.now()\<close> (for the id and for the timestamp).
\<close>

definition onConnectEnd ::
  "string option \<Rightarrow> string option \<Rightarrow> bool \<Rightarrow> XYPosition \<Rightarrow> nat \<Rightarrow> nat \<Rightarrow> graph \<Rightarrow> graph" where
  "onConnectEnd connectingNodeId connectingHandleId targetIsPane dropPosition now_id now_ts g =
     (case connectingNodeId of
        None \<Rightarrow> g
      | Some parentId \<Rightarrow>
          if parentId = [] then g
          else if \<not> targetIsPane then g
          else
            let handleId = (if falsy_handle connectingHandleId then ''bottom'' else the connectingHandleId);
                inputId = input_id now_id;
                newNode = \<lparr>node_id = inputId, node_type = ''inputNode'',
                            position = dropPosition, origin = Some (1/2, 0),
                            data = \<lparr>label = None, content = [], role = User,
                                    timestamp = real now_ts, isInput = Some True,
                                    onSend = Some (parentId, inputId),
                                    onCancel = Some inputId\<rparr>\<rparr>
            in g\<lparr>nodes := nodes g @ [newNode],
                 edges := addEdge
                   \<lparr>edge_id = ''e-'' @ parentId @ ''-'' @ inputId,
                    source = parentId, target = inputId,
                    edge_type = Some ''smoothstep'', markerEnd = Some ArrowClosed,
                    sourceHandle = Some handleId,
                    targetHandle = Some (if handleId = ''left'' then ''right''
                                         else if handleId = ''right'' then ''left'' else ''top'')\<rparr>
                   (edges g)\<rparr>)"

text \<open>
  \<^verbatim>\<open>onCancel\<close> of an input node: the node is filtered out of the nodes, every edge whose
  target it is is filtered out of the edges.
\<close>

definition onCancel_run :: "string \<Rightarrow> graph \<Rightarrow> graph" where
  "onCancel_run inputId g =
     g\<lparr>nodes := filter (\<lambda>n. node_id n \<noteq> inputId) (nodes g),
       edges := filter (\<lambda>e. target e \<noteq> inputId) (edges g)\<rparr>"

text \<open>
  \<^verbatim>\<open>handleSend(text, parentId, inputNodeId)\<close>, up to the \<^verbatim>\<open>await fetch\<close>: the three state
  updates, in order. The input node becomes a user message in place; the assistant
  placeholder is appended, 200 below the input node when that node is in the list; the edge
  from the user node to the placeholder is added.
\<close>

definition handleSend_updates :: "nat \<Rightarrow> nat \<Rightarrow> string \<Rightarrow> string \<Rightarrow> graph \<Rightarrow> graph" where
  "handleSend_updates now_id now_ts text inputNodeId g =
     (let userNodeId = inputNodeId;
          nodes1 = map (\<lambda>node. if node_id node = inputNodeId
                                then node\<lparr>node_type := ''message'',
                                          data := (data node)\<lparr>role := User, content := text,
                                                              isInput := Some False\<rparr>\<rparr>
                                else node) (nodes g);
          assistantId = ai_id now_id;
          assistantPosition =
            (case find (\<lambda>n. node_id n = inputNodeId) nodes1 of
               Some inputNode \<Rightarrow> \<lparr>pos_x = pos_x (position inputNode),
                                  pos_y = pos_y (position inputNode) + 200\<rparr>
             | None \<Rightarrow> \<lparr>pos_x = 0, pos_y = 0\<rparr>);
          assistantNode = \<lparr>node_id = assistantId, node_type = ''message'',
                            position = assistantPosition, origin = Some (1/2, 0),
                            data = \<lparr>label = None, content = ''Thinking...'', role = Assistant,
                                    timestamp = real now_ts, isInput = None,
                                    onSend = None, onCancel = None\<rparr>\<rparr>
      in g\<lparr>nodes := nodes1 @ [assistantNode],
           edges := addEdge
             \<lparr>edge_id = ''e-'' @ userNodeId @ ''-'' @ assistantId,
              source = userNodeId, target = assistantId,
              edge_type = Some ''smoothstep'', markerEnd = Some ArrowClosed,
              sourceHandle = None, targetHandle = None\<rparr>
             (edges g)\<rparr>)"


text \<open>
  What the single \<^verbatim>\<open>fetch\<close> of a submit can come back with. The HTTP status is carried along
  although \<^verbatim>\<open>handleSend\<close> never reads it. The backend's body is \<^verbatim>\<open>{ reply }\<close> or, with status
  400 or 500, \<^verbatim>\<open>{ error }\<close>: a JSON value other than \<^verbatim>\<open>null\<close> is modelled by its \<^verbatim>\<open>reply\<close>
  property, \<open>None\<close> when the property is absent or \<^verbatim>\<open>null\<close>. (The backend's reply is a string
  or \<^verbatim>\<open>null\<close>; a reply of another type would end up in a content that is no string and is
  not modelled.)
  \<^item> \<open>FetchThrows\<close>: \<^verbatim>\<open>fetch\<close> rejects, a network or transport failure;
  \<^item> \<open>BodyNotJson status\<close>: a response arrived, \<^verbatim>\<open>response.json()\<close> rejects;
  \<^item> \<open>BodyNull status\<close>: the body is the JSON literal \<^verbatim>\<open>null\<close>;
  \<^item> \<open>BodyJson status reply\<close>: the body is any other JSON value.
\<close>

datatype fetch_outcome =
    FetchThrows
  | BodyNotJson nat
  | BodyNull nat
  | BodyJson nat "string option"

definition fetchError :: string where
  "fetchError = ''Error: Could not fetch response.''"

definition noResponse :: string where
  "noResponse = ''Error: No response''"

text \<open>
  The \<^verbatim>\<open>try\<close> block after the fetch: \<^verbatim>\<open>response.json()\<close> rejects on a body that is not JSON,
  \<^verbatim>\<open>data.reply\<close> throws on \<^verbatim>\<open>null\<close>, and \<^verbatim>\<open>data.reply || "Error: No response"\<close> replaces a
  missing or empty reply. Every throw lands in the \<^verbatim>\<open>catch\<close>.
\<close>

definition written_content :: "fetch_outcome \<Rightarrow> string" where
  "written_content outcome =
     (case outcome of
        FetchThrows \<Rightarrow> fetchError
      | BodyNotJson status \<Rightarrow> fetchError
      | BodyNull status \<Rightarrow> fetchError
      | BodyJson status reply \<Rightarrow>
          (case reply of
             None \<Rightarrow> noResponse
           | Some r \<Rightarrow> if r = [] then noResponse else r))"

definition write_content :: "string \<Rightarrow> string \<Rightarrow> graph \<Rightarrow> graph" where
  "write_content assistantId c g =
     g\<lparr>nodes := map (\<lambda>n. if node_id n = assistantId
                           then n\<lparr>data := (data n)\<lparr>content := c\<rparr>\<rparr>
                           else n) (nodes g)\<rparr>"

definition handleSend_settle :: "fetch_outcome \<Rightarrow> string \<Rightarrow> graph \<Rightarrow> graph" where
  "handleSend_settle outcome assistantId g = write_content assistantId (written_content outcome) g"






section \<open>Navigation engine\<close>

text \<open>
  The keyboard handler of the graph component, for the five plain navigation keys (the
  branches with Cmd or Ctrl held return earlier). \<open>focused\<close> is \<^verbatim>\<open>focusedNodeIdRef.current\<close>,
  a \<^verbatim>\<open>string | null\<close>; the result is its value after the handler.
\<close>

datatype nav_key = Tab | ArrowUp | ArrowDown | ArrowLeft | ArrowRight

definition truthy_id :: "string option \<Rightarrow> bool" where
  "truthy_id i = (case i of None \<Rightarrow> False | Some s \<Rightarrow> s \<noteq> [])"

fun findIndex :: "('a \<Rightarrow> bool) \<Rightarrow> 'a list \<Rightarrow> nat option" where
  "findIndex P [] = None"
| "findIndex P (x # xs) = (if P x then Some 0 else map_option Suc (findIndex P xs))"

text \<open>
  \<^verbatim>\<open>focusNode(nodeId)\<close>: returns early when no node has the id, otherwise (after moving the
  view) stores the id in the ref.
\<close>

definition focusNode :: "ChatNode list \<Rightarrow> string \<Rightarrow> string option \<Rightarrow> string option" where
  "focusNode currentNodes nodeId focused =
     (case find (\<lambda>n. node_id n = nodeId) currentNodes of
        None \<Rightarrow> focused
      | Some node \<Rightarrow> Some nodeId)"

text \<open>
  \<^verbatim>\<open>edges.map((e) => currentNodes.find((n) => n.id === e.target)).filter(Boolean)\<close>: the nodes
  the given edges point to, in edge order, edges to missing nodes dropped.
\<close>

definition target_nodes :: "ChatNode list \<Rightarrow> Edge list \<Rightarrow> ChatNode list" where
  "target_nodes currentNodes es =
     List.map_filter (\<lambda>e. find (\<lambda>n. node_id n = target e) currentNodes) es"

text \<open>\<^verbatim>\<open>(timestamp || 0)\<close>: zero is the only falsy number that can occur.\<close>

definition or_zero :: "real \<Rightarrow> real" where
  "or_zero t = (if t = 0 then 0 else t)"

text \<open>
  \<open>nextNodeId\<close> for each key, from \<open>currentNodeId\<close>. \<^verbatim>\<open>Array.prototype.sort\<close> is stable, as is
  \<open>sort_key\<close>; sorting newest first is sorting by the negated timestamp.
\<close>

definition nextNodeId :: "nav_key \<Rightarrow> ChatNode list \<Rightarrow> Edge list \<Rightarrow> string \<Rightarrow> string option" where
  "nextNodeId key currentNodes currentEdges currentNodeId =
     (case key of
        Tab \<Rightarrow>
          let sortedNodes = sort_key (\<lambda>n. timestamp (data n)) currentNodes;
              nextIndex = (case findIndex (\<lambda>n. node_id n = currentNodeId) sortedNodes of
                             None \<Rightarrow> 0
                           | Some currentIndex \<Rightarrow> (currentIndex + 1) mod length sortedNodes)
          in Some (node_id (sortedNodes ! nextIndex))
      | ArrowDown \<Rightarrow>
          let outgoingEdges = filter (\<lambda>e. source e = currentNodeId) currentEdges
          in if outgoingEdges \<noteq> []
             then (case sort_key (\<lambda>n. - or_zero (timestamp (data n)))
                          (target_nodes currentNodes outgoingEdges) of
                     [] \<Rightarrow> None
                   | child # others \<Rightarrow> Some (node_id child))
             else None
      | ArrowUp \<Rightarrow>
          (case find (\<lambda>e. target e = currentNodeId) currentEdges of
             None \<Rightarrow> None
           | Some incomingEdge \<Rightarrow> Some (source incomingEdge))
      | _ \<Rightarrow>
          (case find (\<lambda>e. target e = currentNodeId) currentEdges of
             None \<Rightarrow> None
           | Some incomingEdge \<Rightarrow>
               let parentId = source incomingEdge;
                   siblingEdges = filter (\<lambda>e. source e = parentId) currentEdges;
                   siblings = sort_key (\<lambda>n. or_zero (timestamp (data n)))
                                (target_nodes currentNodes siblingEdges)
               in (case findIndex (\<lambda>n. node_id n = currentNodeId) siblings of
                     None \<Rightarrow> None
                   | Some currentIndex \<Rightarrow>
                       if key = ArrowLeft
                       then (if 1 \<le> currentIndex
                             then Some (node_id (siblings ! (currentIndex - 1)))
                             else None)
                       else (if currentIndex + 1 < length siblings
                             then Some (node_id (siblings ! (currentIndex + 1)))
                             else None))))"

text \<open>
  The root the handler falls back on: the node with id \<^verbatim>\<open>"root"\<close>, or else the first node of
  the array.
\<close>

definition default_root :: "ChatNode list \<Rightarrow> ChatNode" where
  "default_root currentNodes =
     (case find (\<lambda>n. node_id n = ''root'') currentNodes of
        Some r \<Rightarrow> r
      | None \<Rightarrow> hd currentNodes)"

definition handleKeyDown :: "nav_key \<Rightarrow> ChatNode list \<Rightarrow> Edge list \<Rightarrow> string option \<Rightarrow> string option" where
  "handleKeyDown key currentNodes currentEdges focused =
     (if currentNodes = [] then focused
      else
        let currentNodeId =
              (if \<not> truthy_id focused \<or> find (\<lambda>n. node_id n = the focused) currentNodes = None
               then node_id (default_root currentNodes)
               else the focused);
            next = nextNodeId key currentNodes currentEdges currentNodeId
        in if truthy_id next then focusNode currentNodes (the next) focused
           else if \<not> truthy_id focused then focusNode currentNodes currentNodeId focused
           else focused)"

text \<open>The children of a node, as the handler finds them.\<close>

definition children_of :: "ChatNode list \<Rightarrow> Edge list \<Rightarrow> string \<Rightarrow> ChatNode list" where
  "children_of ns es v = target_nodes ns (filter (\<lambda>e. source e = v) es)"

text \<open>
  The siblings of a node in the handler's order: the children of the source of its first
  incoming edge, by ascending timestamp.
\<close>

definition siblings_of :: "ChatNode list \<Rightarrow> Edge list \<Rightarrow> string \<Rightarrow> ChatNode list" where
  "siblings_of ns es v =
     (case parent_of es v of
        None \<Rightarrow> []
      | Some p \<Rightarrow> sort_key (\<lambda>n. timestamp (data n)) (children_of ns es p))"

section \<open>Persistence codec\<close>

text \<open>
  JavaScript values as far as the codec meets them: what \<^verbatim>\<open>JSON.parse\<close> can return, and
  \<^verbatim>\<open>undefined\<close> for a property that is not there. An object is the list of its own
  properties.
\<close>

datatype jsval =
    JUndefined
  | JNull
  | JBool bool
  | JNum real
  | JStr string
  | JArr "jsval list"
  | JObj "(string \<times> jsval) list"

text \<open>
  Reading a property: a \<^verbatim>\<open>TypeError\<close> (\<open>None\<close>) on \<^verbatim>\<open>null\<close> and \<^verbatim>\<open>undefined\<close>, the value or
  \<^verbatim>\<open>undefined\<close> on an object, \<^verbatim>\<open>undefined\<close> on the other values (none of the property names
  used below exists on a number, string, boolean or array).
\<close>

fun js_get :: "jsval \<Rightarrow> string \<Rightarrow> jsval option" where
  "js_get JUndefined k = None"
| "js_get JNull k = None"
| "js_get (JObj kvs) k = Some (case map_of kvs k of Some v \<Rightarrow> v | None \<Rightarrow> JUndefined)"
| "js_get v k = Some JUndefined"

fun truthy :: "jsval \<Rightarrow> bool" where
  "truthy JUndefined = False"
| "truthy JNull = False"
| "truthy (JBool b) = b"
| "truthy (JNum r) = (r \<noteq> 0)"
| "truthy (JStr s) = (s \<noteq> [])"
| "truthy v = True"

text \<open>
  \<^verbatim>\<open>JSON.parse(JSON.stringify(v))\<close>: a property whose value is \<^verbatim>\<open>undefined\<close> is left out, an
  array element that is \<^verbatim>\<open>undefined\<close> becomes \<^verbatim>\<open>null\<close>, everything else comes back as it was.
\<close>

fun json_roundtrip :: "jsval \<Rightarrow> jsval" where
  "json_roundtrip (JArr xs) =
     JArr (map (\<lambda>x. if x = JUndefined then JNull else json_roundtrip x) xs)"
| "json_roundtrip (JObj kvs) =
     JObj (map (\<lambda>kv. (fst kv, json_roundtrip (snd kv))) (filter (\<lambda>kv. snd kv \<noteq> JUndefined) kvs))"
| "json_roundtrip v = v"

definition js_opt :: "('a \<Rightarrow> jsval) \<Rightarrow> 'a option \<Rightarrow> jsval" where
  "js_opt f v = (case v of None \<Rightarrow> JUndefined | Some a \<Rightarrow> f a)"

definition role_str :: "MessageRole \<Rightarrow> string" where
  "role_str r = (case r of User \<Rightarrow> ''user'' | Assistant \<Rightarrow> ''assistant'' | System \<Rightarrow> ''system'')"

definition role_of_str :: "string \<Rightarrow> MessageRole option" where
  "role_of_str s =
     (if s = ''user'' then Some User
      else if s = ''assistant'' then Some Assistant
      else if s = ''system'' then Some System
      else None)"

text \<open>\<^verbatim>\<open>serializeState()\<close>: the object it returns, \<open>exportedAt\<close> being the ISO date string.\<close>

definition serialize_position :: "XYPosition \<Rightarrow> jsval" where
  "serialize_position p = JObj [(''x'', JNum (pos_x p)), (''y'', JNum (pos_y p))]"

definition serialize_node :: "ChatNode \<Rightarrow> jsval" where
  "serialize_node node =
     JObj [(''id'', JStr (node_id node)),
           (''type'', JStr (node_type node)),
           (''position'', serialize_position (position node)),
           (''data'', JObj [(''role'', JStr (role_str (role (data node)))),
                            (''content'', JStr (content (data node))),
                            (''timestamp'', JNum (timestamp (data node))),
                            (''isInput'', js_opt JBool (isInput (data node))),
                            (''label'', js_opt JStr (label (data node)))])]"

definition serialize_marker :: "EdgeMarker \<Rightarrow> jsval" where
  "serialize_marker m = (case m of Marker t \<Rightarrow> JObj [(''type'', JStr t)])"

definition serialize_edge :: "Edge \<Rightarrow> jsval" where
  "serialize_edge edge =
     JObj [(''id'', JStr (edge_id edge)),
           (''source'', JStr (source edge)),
           (''target'', JStr (target edge)),
           (''type'', js_opt JStr (edge_type edge)),
           (''markerEnd'', js_opt serialize_marker (markerEnd edge))]"

definition serialize_viewport :: "Viewport \<Rightarrow> jsval" where
  "serialize_viewport v =
     JObj [(''x'', JNum (vp_x v)), (''y'', JNum (vp_y v)), (''zoom'', JNum (vp_zoom v))]"

definition serializeState :: "graph \<Rightarrow> string \<Rightarrow> jsval" where
  "serializeState g exportedAt =
     JObj [(''nodes'', JArr (map serialize_node (nodes g))),
           (''edges'', JArr (map serialize_edge (edges g))),
           (''viewport'', serialize_viewport (viewport g)),
           (''exportedAt'', JStr exportedAt),
           (''version'', JStr ''1.0'')]"

text \<open>
  \<^verbatim>\<open>importState(jsonString)\<close>. \<open>parsed\<close> is the result of \<^verbatim>\<open>JSON.parse\<close>, \<open>None\<close> when it throws.
  The function returns a boolean; the second component is the snapshot afterwards.

  The casts \<^verbatim>\<open>state.nodes as SerializedNode[]\<close> and \<^verbatim>\<open>state.edges as SerializedEdge[]\<close> check
  nothing, so two things are kept apart. \<open>node_throws\<close> and \<open>edge_throws\<close> say whether
  building the restored element throws (reading a property of \<^verbatim>\<open>null\<close> or \<^verbatim>\<open>undefined\<close>:
  \<^verbatim>\<open>node.id\<close>, \<^verbatim>\<open>node.data.role\<close>, \<^verbatim>\<open>edge.id\<close>); this decides the boolean. \<open>restore_node\<close> and
  \<open>restore_edge\<close> give the restored element when its fields have the declared types; when
  an element restored without a throw is not of the declared type, the import still
  returns \<^verbatim>\<open>true\<close> and the snapshot afterwards, which then holds values that are no
  \<^verbatim>\<open>ChatNode\<close> or \<^verbatim>\<open>Edge\<close>, is \<open>None\<close>.

  A restored input node gets a new \<^verbatim>\<open>onSend\<close>, bound to its id with the first \<^verbatim>\<open>"input-"\<close>
  removed as the parent id. (The later version of the hook gives it an \<^verbatim>\<open>onCancel\<close> as well
  and is otherwise the same.)
\<close>

definition node_throws :: "jsval \<Rightarrow> bool" where
  "node_throws node =
     (case js_get node ''data'' of
        None \<Rightarrow> True
      | Some d \<Rightarrow> js_get d ''role'' = None)"

definition edge_throws :: "jsval \<Rightarrow> bool" where
  "edge_throws edge = (js_get edge ''id'' = None)"

text \<open>\<^verbatim>\<open>node.id.replace("input-", "")\<close>: the first occurrence of the pattern is replaced.\<close>

fun replace_first :: "string \<Rightarrow> string \<Rightarrow> string \<Rightarrow> string" where
  "replace_first pat rep [] = (if pat = [] then rep else [])"
| "replace_first pat rep (c # cs) =
     (if prefix pat (c # cs) then rep @ drop (length pat) (c # cs)
      else c # replace_first pat rep cs)"

definition restore_position :: "jsval \<Rightarrow> XYPosition option" where
  "restore_position p =
     (case (js_get p ''x'', js_get p ''y'') of
        (Some (JNum a), Some (JNum b)) \<Rightarrow> Some \<lparr>pos_x = a, pos_y = b\<rparr>
      | _ \<Rightarrow> None)"

definition restore_origin :: "jsval \<Rightarrow> (real \<times> real) option option" where
  "restore_origin og =
     (if \<not> truthy og then Some None
      else (case og of
              JArr [JNum a, JNum b] \<Rightarrow> Some (Some (a, b))
            | _ \<Rightarrow> None))"

definition restore_isInput :: "jsval \<Rightarrow> bool option option" where
  "restore_isInput v =
     (case v of JUndefined \<Rightarrow> Some None | JBool b \<Rightarrow> Some (Some b) | _ \<Rightarrow> None)"

definition restore_label :: "jsval \<Rightarrow> string option option" where
  "restore_label v =
     (case v of JUndefined \<Rightarrow> Some None | JStr s \<Rightarrow> Some (Some s) | _ \<Rightarrow> None)"

definition restore_data :: "string \<Rightarrow> jsval \<Rightarrow> ChatNodeData option" where
  "restore_data nodeId d =
     (case (js_get d ''role'', js_get d ''content'', js_get d ''timestamp'',
            js_get d ''isInput'', js_get d ''label'') of
        (Some (JStr r), Some (JStr c), Some (JNum t), Some i, Some l) \<Rightarrow>
          (case (role_of_str r, restore_isInput i, restore_label l) of
             (Some r', Some i', Some l') \<Rightarrow>
               Some \<lparr>label = l', content = c, role = r', timestamp = t, isInput = i',
                     onSend = (if truthy i
                               then Some (replace_first ''input-'' [] nodeId, nodeId)
                               else None),
                     onCancel = None\<rparr>
           | _ \<Rightarrow> None)
      | _ \<Rightarrow> None)"

definition restore_node :: "jsval \<Rightarrow> ChatNode option" where
  "restore_node node =
     (case (js_get node ''id'', js_get node ''type'', js_get node ''position'',
            js_get node ''data'', js_get node ''origin'') of
        (Some (JStr i), Some (JStr t), Some p, Some d, Some og) \<Rightarrow>
          (case (restore_position p, restore_data i d, restore_origin og) of
             (Some p', Some d', Some og') \<Rightarrow>
               Some \<lparr>node_id = i, node_type = t, position = p', origin = og', data = d'\<rparr>
           | _ \<Rightarrow> None)
      | _ \<Rightarrow> None)"

definition restore_marker :: "jsval \<Rightarrow> EdgeMarker option" where
  "restore_marker m =
     (if \<not> truthy m then Some ArrowClosed
      else (case js_get m ''type'' of Some (JStr t) \<Rightarrow> Some (Marker t) | _ \<Rightarrow> None))"

definition restore_edge_type :: "jsval \<Rightarrow> string option" where
  "restore_edge_type t =
     (if \<not> truthy t then Some ''smoothstep''
      else (case t of JStr s \<Rightarrow> Some s | _ \<Rightarrow> None))"

definition restore_edge :: "jsval \<Rightarrow> Edge option" where
  "restore_edge edge =
     (case (js_get edge ''id'', js_get edge ''source'', js_get edge ''target'',
            js_get edge ''type'', js_get edge ''markerEnd'') of
        (Some (JStr i), Some (JStr s), Some (JStr t), Some ty, Some m) \<Rightarrow>
          (case (restore_edge_type ty, restore_marker m) of
             (Some ty', Some m') \<Rightarrow>
               Some \<lparr>edge_id = i, source = s, target = t, edge_type = Some ty',
                     markerEnd = Some m', sourceHandle = None, targetHandle = None\<rparr>
           | _ \<Rightarrow> None)
      | _ \<Rightarrow> None)"

text \<open>\<^verbatim>\<open>if (state.viewport) setViewport(state.viewport)\<close>.\<close>

definition restore_viewport :: "jsval \<Rightarrow> Viewport \<Rightarrow> Viewport option" where
  "restore_viewport v current =
     (if \<not> truthy v then Some current
      else (case (js_get v ''x'', js_get v ''y'', js_get v ''zoom'') of
              (Some (JNum a), Some (JNum b), Some (JNum z)) \<Rightarrow>
                Some \<lparr>vp_x = a, vp_y = b, vp_zoom = z\<rparr>
            | _ \<Rightarrow> None))"

definition restored_graph :: "jsval list \<Rightarrow> jsval list \<Rightarrow> jsval \<Rightarrow> graph \<Rightarrow> graph option" where
  "restored_graph ns es v g =
     (case (those (map restore_node ns), those (map restore_edge es),
            restore_viewport v (viewport g)) of
        (Some ns', Some es', Some v') \<Rightarrow> Some \<lparr>nodes = ns', edges = es', viewport = v'\<rparr>
      | _ \<Rightarrow> None)"

definition importState :: "jsval option \<Rightarrow> graph \<Rightarrow> bool \<times> graph option" where
  "importState parsed g =
     (case parsed of
        None \<Rightarrow> (False, Some g)
      | Some state \<Rightarrow>
          (case (js_get state ''nodes'', js_get state ''edges'', js_get state ''viewport'') of
             (Some ns, Some es, Some v) \<Rightarrow>
               if \<not> truthy ns \<or> \<not> truthy es then (False, Some g)
               else (case ns of
                       JArr nl \<Rightarrow>
                         if list_ex node_throws nl then (False, Some g)
                         else (case es of
                                 JArr el \<Rightarrow>
                                   if list_ex edge_throws el then (False, Some g)
                                   else (True, restored_graph nl el v g)
                               | _ \<Rightarrow> (False, Some g))
                     | _ \<Rightarrow> (False, Some g))
           | _ \<Rightarrow> (False, Some g)))"

section \<open>Operation sequences\<close>

text \<open>
  The operations that change the graph between renders, with the clock readings they take:
  a connect gesture that ends on the pane (\<open>StartBranch\<close>: parent id, handle, drop position,
  the readings for id and timestamp), \<^verbatim>\<open>handleSend\<close> up to the fetch (\<open>Submit\<close>: text, input
  node id, the two readings), the \<^verbatim>\<open>onCancel\<close> of an input node, and the write that ends a
  backend call.
\<close>

datatype operation =
    StartBranch string "string option" XYPosition nat nat
  | Submit string string nat nat
  | Cancel string
  | Reply fetch_outcome string

fun apply_operation :: "operation \<Rightarrow> graph \<Rightarrow> graph" where
  "apply_operation (StartBranch parentId handleId dropPosition now_id now_ts) g =
     onConnectEnd (Some parentId) handleId True dropPosition now_id now_ts g"
| "apply_operation (Submit text inputNodeId now_id now_ts) g =
     handleSend_updates now_id now_ts text inputNodeId g"
| "apply_operation (Cancel inputId) g = onCancel_run inputId g"
| "apply_operation (Reply outcome assistantId) g = handleSend_settle outcome assistantId g"

definition run :: "operation list \<Rightarrow> graph \<Rightarrow> graph" where
  "run ops g = foldl (\<lambda>g' op. apply_operation op g') g ops"

definition initial_graph :: "nat \<Rightarrow> Viewport \<Rightarrow> graph" where
  "initial_graph now v = \<lparr>nodes = getInitialNodes now, edges = [], viewport = v\<rparr>"

definition in_degree :: "Edge list \<Rightarrow> string \<Rightarrow> nat" where
  "in_degree es v = length (filter (\<lambda>e. target e = v) es)"

text \<open>The clock readings a sequence uses for input-node ids and for assistant-node ids.\<close>

fun input_clocks :: "operation list \<Rightarrow> nat list" where
  "input_clocks [] = []"
| "input_clocks (StartBranch parentId handleId dropPosition now_id now_ts # ops) = now_id # input_clocks ops"
| "input_clocks (op # ops) = input_clocks ops"

fun ai_clocks :: "operation list \<Rightarrow> nat list" where
  "ai_clocks [] = []"
| "ai_clocks (Submit text inputNodeId now_id now_ts # ops) = now_id # ai_clocks ops"
| "ai_clocks (op # ops) = ai_clocks ops"

text \<open>
  \<open>minted Ti Ta es\<close>: every edge of \<open>es\<close> points to an id minted from one of the clock
  readings \<open>Ti\<close> (input nodes) or \<open>Ta\<close> (assistant nodes).
\<close>

definition minted :: "nat set \<Rightarrow> nat set \<Rightarrow> Edge list \<Rightarrow> bool" where
  "minted Ti Ta es =
     (\<forall>e\<in>set es. (\<exists>t\<in>Ti. target e = input_id t) \<or> (\<exists>t\<in>Ta. target e = ai_id t))"

section \<open>What a restore gives back\<close>

text \<open>
  The node and the edge that \<^verbatim>\<open>importState\<close> rebuilds from a serialized one: the node loses
  \<^verbatim>\<open>origin\<close> (it is not serialized) and its callbacks, and gets a new \<^verbatim>\<open>onSend\<close> when it is
  an input node; the edge loses its handles and gets the default type and marker when it
  had none.
\<close>

definition restored_node :: "ChatNode \<Rightarrow> ChatNode" where
  "restored_node n =
     n\<lparr>origin := None,
       data := (data n)\<lparr>onSend := (if isInput (data n) = Some True
                                     then Some (replace_first ''input-'' [] (node_id n), node_id n)
                                     else None),
                        onCancel := None\<rparr>\<rparr>"

definition restored_edge :: "Edge \<Rightarrow> Edge" where
  "restored_edge e =
     e\<lparr>edge_type := Some (case edge_type e of None \<Rightarrow> ''smoothstep''
                            | Some t \<Rightarrow> if t = [] then ''smoothstep'' else t),
       markerEnd := Some (case markerEnd e of None \<Rightarrow> ArrowClosed | Some m \<Rightarrow> m),
       sourceHandle := None, targetHandle := None\<rparr>"

section \<open>Example snapshots\<close>

definition origin_pos :: XYPosition where
  "origin_pos = \<lparr>pos_x = 0, pos_y = 0\<rparr>"

definition unit_viewport :: Viewport where
  "unit_viewport = \<lparr>vp_x = 0, vp_y = 0, vp_zoom = 1\<rparr>"

definition message_node :: "string \<Rightarrow> MessageRole \<Rightarrow> string \<Rightarrow> real \<Rightarrow> ChatNode" where
  "message_node i r c t =
     \<lparr>node_id = i, node_type = ''message'', position = origin_pos, origin = None,
      data = \<lparr>label = None, content = c, role = r, timestamp = t,
              isInput = None, onSend = None, onCancel = None\<rparr>\<rparr>"

definition plain_edge :: "string \<Rightarrow> string \<Rightarrow> Edge" where
  "plain_edge s t =
     \<lparr>edge_id = ''e-'' @ s @ ''-'' @ t, source = s, target = t,
      edge_type = Some ''smoothstep'', markerEnd = Some ArrowClosed,
      sourceHandle = None, targetHandle = None\<rparr>"

text \<open>
  The scenario of the specification: the root, one branch started from it at clock 2,
  submitted with "hi" at clock 3, answered with "hello".
\<close>

definition scenario_ops :: "operation list" where
  "scenario_ops =
     [StartBranch ''root'' None origin_pos 2 2,
      Submit ''hi'' (input_id 2) 3 3,
      Reply (BodyJson 200 (Some ''hello'')) (ai_id 3)]"

definition scenario_graph :: graph where
  "scenario_graph = run scenario_ops (initial_graph 1 unit_viewport)"

text \<open>The same scenario before the backend has answered.\<close>

definition pending_graph :: graph where
  "pending_graph = run (butlast scenario_ops) (initial_graph 1 unit_viewport)"

text \<open>
  Two branches whose ids are minted from the same clock reading: a branch from the root, its
  submit, and a branch from the new assistant node while \<^verbatim>\<open>Date.now()\<close> reads 5 again.
\<close>

definition collision_ops :: "operation list" where
  "collision_ops =
     [StartBranch ''root'' None origin_pos 5 5,
      Submit ''hi'' (input_id 5) 6 6,
      StartBranch (ai_id 6) None origin_pos 5 5]"

text \<open>A root with two children, \<open>a\<close> older than \<open>b\<close>.\<close>

definition fork_nodes :: "ChatNode list" where
  "fork_nodes = [message_node ''root'' Assistant ''r'' 1,
                 message_node ''a'' User ''x'' 2,
                 message_node ''b'' User ''y'' 3]"

definition fork_edges :: "Edge list" where
  "fork_edges = [plain_edge ''root'' ''a'', plain_edge ''root'' ''b'']"

text \<open>
  A parent whose newest child has the empty string as its id (\<^verbatim>\<open>addEdge\<close> would not add an
  edge to it; \<^verbatim>\<open>importState\<close> restores such a snapshot from a document that has it).
\<close>

definition blank_nodes :: "ChatNode list" where
  "blank_nodes = [message_node ''p'' Assistant ''r'' 1,
                  message_node [] User ''x'' 3,
                  message_node ''c'' User ''y'' 2]"

definition blank_edges :: "Edge list" where
  "blank_edges = [plain_edge ''p'' [], plain_edge ''p'' ''c'']"

text \<open>Two documents: \<^verbatim>\<open>{"nodes":[5],"edges":[]}\<close> and \<^verbatim>\<open>{"nodes":[],"edges":[5]}\<close>.\<close>

definition doc_bad_node :: jsval where
  "doc_bad_node = JObj [(''nodes'', JArr [JNum 5]), (''edges'', JArr [])]"

definition doc_bad_edge :: jsval where
  "doc_bad_edge = JObj [(''nodes'', JArr []), (''edges'', JArr [JNum 5])]"

section \<open>Properties of the context resolver\<close>

lemma context_loop_path:
  "ancestor_path ns es v p \<Longrightarrow>
   context_loop ns es (Some v) acc = Some (chain_messages ns (rev p) @ acc)"
proof (induction p arbitrary: v acc)
  case Nil
  then show ?case by simp
next
  case (Cons u rest)
  from Cons.prems have uv: "u = v" and ne: "v \<noteq> []"
    and present: "find (\<lambda>n. node_id n = v) ns \<noteq> None"
    by simp_all
  from present obtain node where node: "find (\<lambda>n. node_id n = v) ns = Some node"
    by blast
  show ?case
  proof (cases "find (\<lambda>e. target e = v) es")
    case None
    with Cons.prems have "rest = []"
      by (simp add: parent_of_def)
    with None node ne uv show ?thesis
      by (subst context_loop.simps, subst context_loop.simps)
         (simp add: chain_messages_def message_of_def Let_def)
  next
    case (Some pe)
    with Cons.prems have path: "ancestor_path ns es (source pe) rest"
      by (simp add: parent_of_def)
    have "context_loop ns es (Some v) acc =
          context_loop ns es (Some (source pe)) (message_of ns v @ acc)"
      using Some node ne
      by (subst context_loop.simps) (simp add: message_of_def Let_def)
    also have "\<dots> = Some (chain_messages ns (rev rest) @ message_of ns v @ acc)"
      by (rule Cons.IH [OF path])
    finally show ?thesis
      using uv by (simp add: chain_messages_def)
  qed
qed

lemma context_loop_self_loop:
  assumes "context_loop ns es cur h = Some y"
  shows "\<not> (ns = [loop_node] \<and> es = [loop_edge] \<and> cur = Some ''a'')"
proof (rule context_loop.raw_induct
    [where P = "\<lambda>ns es cur h y. \<not> (ns = [loop_node] \<and> es = [loop_edge] \<and> cur = Some ''a'')",
     OF _ assms])
  fix f :: "ChatNode list \<Rightarrow> Edge list \<Rightarrow> string option \<Rightarrow> ChatMessage list \<Rightarrow> ChatMessage list option"
  fix ns es cur h y
  assume IH: "\<And>ns es cur h y. f ns es cur h = Some y \<Longrightarrow>
      \<not> (ns = [loop_node] \<and> es = [loop_edge] \<and> cur = Some ''a'')"
  assume step: "(case cur of
        None \<Rightarrow> Some h
      | Some c \<Rightarrow>
          if c = [] then Some h
          else (case find (\<lambda>n. node_id n = c) ns of
                  None \<Rightarrow> Some h
                | Some node \<Rightarrow>
                    let history' =
                          (if node_type node = ''message''
                           then \<lparr>msg_role = role (data node), msg_content = content (data node)\<rparr> # h
                           else h);
                        parentEdge = find (\<lambda>e. target e = c) es
                    in f ns es
                         (case parentEdge of Some pe \<Rightarrow> Some (source pe) | None \<Rightarrow> None)
                         history')) = Some y"
  show "\<not> (ns = [loop_node] \<and> es = [loop_edge] \<and> cur = Some ''a'')"
  proof
    assume a: "ns = [loop_node] \<and> es = [loop_edge] \<and> cur = Some ''a''"
    have "f [loop_node] [loop_edge] (Some ''a'')
            (\<lparr>msg_role = User, msg_content = ''hi''\<rparr> # h) = Some y"
      using step a by (simp add: loop_node_def loop_edge_def)
    from IH [OF this] show False
      by simp
  qed
qed

section \<open>Properties of the minted ids\<close>

lemma digit_char_inj: "a < 10 \<Longrightarrow> b < 10 \<Longrightarrow> digit_char a = digit_char b \<Longrightarrow> a = b"
proof -
  assume a: "a < 10" and b: "b < 10" and e: "digit_char a = digit_char b"
  have A: "a \<in> {0,1,2,3,4,5,6,7,8,9}" using a by auto
  have B: "b \<in> {0,1,2,3,4,5,6,7,8,9}" using b by auto
  show ?thesis using A B e by (auto simp: digit_char_def)
qed

lemma show_nat_nonempty: "show_nat n \<noteq> []"
  by (subst show_nat.simps) simp

lemma show_nat_inj: "show_nat m = show_nat n \<Longrightarrow> m = n"
proof (induction m arbitrary: n rule: less_induct)
  case (less m)
  show ?case
  proof (cases "m < 10")
    case True
    then have m1: "show_nat m = [digit_char m]" by (subst show_nat.simps) simp
    show ?thesis
    proof (cases "n < 10")
      case True
      then have "show_nat n = [digit_char n]" by (subst show_nat.simps) simp
      with m1 less.prems have "digit_char m = digit_char n" by simp
      with \<open>m < 10\<close> True show ?thesis by (simp add: digit_char_inj)
    next
      case False
      then have "show_nat n = show_nat (n div 10) @ [digit_char (n mod 10)]"
        by (subst show_nat.simps) simp
      with m1 less.prems have "show_nat (n div 10) = []" by simp
      then show ?thesis using show_nat_nonempty by blast
    qed
  next
    case False
    then have m1: "show_nat m = show_nat (m div 10) @ [digit_char (m mod 10)]"
      by (subst show_nat.simps) simp
    show ?thesis
    proof (cases "n < 10")
      case True
      then have "show_nat n = [digit_char n]" by (subst show_nat.simps) simp
      with m1 less.prems have "show_nat (m div 10) = []" by simp
      then show ?thesis using show_nat_nonempty by blast
    next
      case nf: False
      then have "show_nat n = show_nat (n div 10) @ [digit_char (n mod 10)]"
        by (subst show_nat.simps) simp
      with m1 less.prems have e1: "show_nat (m div 10) = show_nat (n div 10)"
        and e2: "digit_char (m mod 10) = digit_char (n mod 10)" by simp_all
      have "m div 10 < m" using False by simp
      from less.IH [OF this e1] have d: "m div 10 = n div 10" .
      have "m mod 10 = n mod 10"
        by (rule digit_char_inj [OF _ _ e2]) simp_all
      with d show ?thesis
        by (metis div_mult_mod_eq)
    qed
  qed
qed

lemma input_id_inj [simp]: "input_id a = input_id b \<longleftrightarrow> a = b"
  by (auto simp: input_id_def dest: show_nat_inj)

lemma ai_id_inj [simp]: "ai_id a = ai_id b \<longleftrightarrow> a = b"
  by (auto simp: ai_id_def dest: show_nat_inj)

lemma input_ai_distinct [simp]: "input_id a \<noteq> ai_id b" "ai_id b \<noteq> input_id a"
  by (simp_all add: input_id_def ai_id_def)

lemma minted_not_root [simp]:
  "input_id a \<noteq> ''root''" "ai_id a \<noteq> ''root''" "''root'' \<noteq> input_id a" "''root'' \<noteq> ai_id a"
  "input_id a \<noteq> []" "ai_id a \<noteq> []"
  by (simp_all add: input_id_def ai_id_def)

section \<open>The in-degree invariant\<close>

lemma addEdge_cases: "addEdge e es = es \<or> addEdge e es = es @ [e]"
  by (simp add: addEdge_def)

lemma in_degree_append [simp]:
  "in_degree (es @ [e]) v = in_degree es v + (if target e = v then 1 else 0)"
  by (simp add: in_degree_def)

lemma in_degree_filter_le: "in_degree (filter P es) v \<le> in_degree es v"
  unfolding in_degree_def
  by (induction es) auto

lemma minted_fresh_input: "minted Ti Ta es \<Longrightarrow> t \<notin> Ti \<Longrightarrow> in_degree es (input_id t) = 0"
  by (auto simp: minted_def in_degree_def filter_empty_conv)

lemma minted_fresh_ai: "minted Ti Ta es \<Longrightarrow> t \<notin> Ta \<Longrightarrow> in_degree es (ai_id t) = 0"
  by (auto simp: minted_def in_degree_def filter_empty_conv)

lemma minted_mono: "minted Ti Ta es \<Longrightarrow> Ti \<subseteq> Ti' \<Longrightarrow> Ta \<subseteq> Ta' \<Longrightarrow> minted Ti' Ta' es"
  unfolding minted_def by blast

lemma add_fresh_edge:
  assumes "\<forall>v. in_degree es v \<le> 1" and "in_degree es (target e) = 0"
  shows "\<forall>v. in_degree (es @ [e]) v \<le> 1"
  using assms by auto

lemma minted_append:
  "minted Ti Ta es \<Longrightarrow> (\<exists>t\<in>Ti. target e = input_id t) \<or> (\<exists>t\<in>Ta. target e = ai_id t) \<Longrightarrow>
   minted Ti Ta (es @ [e])"
  by (auto simp: minted_def)

lemma edges_StartBranch:
  "edges (apply_operation (StartBranch p h pos t ts) g) = edges g \<or>
   (\<exists>e. target e = input_id t \<and> edges (apply_operation (StartBranch p h pos t ts) g) = edges g @ [e])"
  by (simp add: onConnectEnd_def Let_def addEdge_def)

lemma edges_Submit:
  "edges (apply_operation (Submit text i t ts) g) = edges g \<or>
   (\<exists>e. target e = ai_id t \<and> edges (apply_operation (Submit text i t ts) g) = edges g @ [e])"
  by (simp add: handleSend_updates_def Let_def addEdge_def)

lemma edges_Cancel: "edges (apply_operation (Cancel i) g) = filter (\<lambda>e. target e \<noteq> i) (edges g)"
  by (simp add: onCancel_run_def)

lemma edges_Reply: "edges (apply_operation (Reply outcome a) g) = edges g"
  by (simp add: handleSend_settle_def write_content_def)

lemma run_in_degree:
  "\<forall>v. in_degree (edges g) v \<le> 1 \<Longrightarrow> minted Ti Ta (edges g) \<Longrightarrow>
   distinct (input_clocks ops) \<Longrightarrow> distinct (ai_clocks ops) \<Longrightarrow>
   set (input_clocks ops) \<inter> Ti = {} \<Longrightarrow> set (ai_clocks ops) \<inter> Ta = {} \<Longrightarrow>
   \<forall>v. in_degree (edges (run ops g)) v \<le> 1"
proof (induction ops arbitrary: g Ti Ta)
  case Nil
  then show ?case by (simp add: run_def)
next
  case (Cons op ops)
  have run_Cons: "run (op # ops) g = run ops (apply_operation op g)"
    by (simp add: run_def)
  show ?case
  proof (cases op)
    case (StartBranch p h pos t ts)
    let ?g = "apply_operation op g"
    from Cons.prems StartBranch have fresh: "t \<notin> Ti" and d: "distinct (input_clocks ops)"
      and nt: "t \<notin> set (input_clocks ops)" by auto
    have deg: "\<forall>v. in_degree (edges ?g) v \<le> 1"
      using edges_StartBranch [of p h pos t ts g] Cons.prems(1)
        add_fresh_edge [OF Cons.prems(1)] minted_fresh_input [OF Cons.prems(2) fresh]
      unfolding StartBranch by metis
    have m0: "minted (insert t Ti) Ta (edges g)"
      by (rule minted_mono [OF Cons.prems(2)]) auto
    have m: "minted (insert t Ti) Ta (edges ?g)"
      using edges_StartBranch [of p h pos t ts g] m0 minted_append [OF m0]
      unfolding StartBranch by auto
    have "\<forall>v. in_degree (edges (run ops ?g)) v \<le> 1"
      using Cons.prems StartBranch nt by (intro Cons.IH [OF deg m d]) auto
    then show ?thesis by (simp add: run_Cons)
  next
    case (Submit msg i t ts)
    let ?g = "apply_operation op g"
    from Cons.prems Submit have fresh: "t \<notin> Ta" and d: "distinct (ai_clocks ops)"
      and nt: "t \<notin> set (ai_clocks ops)" by auto
    have deg: "\<forall>v. in_degree (edges ?g) v \<le> 1"
      using edges_Submit [of msg i t ts g] Cons.prems(1)
        add_fresh_edge [OF Cons.prems(1)] minted_fresh_ai [OF Cons.prems(2) fresh]
      unfolding Submit by metis
    have m0: "minted Ti (insert t Ta) (edges g)"
      by (rule minted_mono [OF Cons.prems(2)]) auto
    have m: "minted Ti (insert t Ta) (edges ?g)"
      using edges_Submit [of msg i t ts g] m0 minted_append [OF m0]
      unfolding Submit by auto
    have "\<forall>v. in_degree (edges (run ops ?g)) v \<le> 1"
      using Cons.prems Submit nt by (intro Cons.IH [OF deg m _ d]) auto
    then show ?thesis by (simp add: run_Cons)
  next
    case (Cancel i)
    let ?g = "apply_operation op g"
    have deg: "\<forall>v. in_degree (edges ?g) v \<le> 1"
      using Cons.prems(1) in_degree_filter_le [of "\<lambda>e. target e \<noteq> i" "edges g"]
      unfolding Cancel edges_Cancel by (meson le_trans)
    have m: "minted Ti Ta (edges ?g)"
      using Cons.prems(2) unfolding Cancel edges_Cancel by (auto simp: minted_def)
    have "\<forall>v. in_degree (edges (run ops ?g)) v \<le> 1"
      using Cons.prems Cancel by (intro Cons.IH [OF deg m]) auto
    then show ?thesis by (simp add: run_Cons)
  next
    case (Reply outcome a)
    let ?g = "apply_operation op g"
    have deg: "\<forall>v. in_degree (edges ?g) v \<le> 1"
      using Cons.prems(1) unfolding Reply edges_Reply .
    have m: "minted Ti Ta (edges ?g)"
      using Cons.prems(2) unfolding Reply edges_Reply .
    have "\<forall>v. in_degree (edges (run ops ?g)) v \<le> 1"
      using Cons.prems Reply by (intro Cons.IH [OF deg m]) auto
    then show ?thesis by (simp add: run_Cons)
  qed
qed

section \<open>Properties of the persistence codec\<close>

lemma role_of_str_role_str [simp]: "role_of_str (role_str r) = Some r"
  by (cases r) (simp_all add: role_str_def role_of_str_def)

lemma restore_node_serialize:
  "restore_node (json_roundtrip (serialize_node n)) = Some (restored_node n)"
  by (cases "isInput (data n)"; cases "label (data n)")
     (simp_all add: restore_node_def serialize_node_def serialize_position_def js_opt_def
        restore_position_def restore_data_def restore_origin_def restore_isInput_def
        restore_label_def restored_node_def)

lemma node_throws_serialize: "\<not> node_throws (json_roundtrip (serialize_node n))"
  by (simp add: node_throws_def serialize_node_def serialize_position_def)

lemma restore_edge_serialize:
  "restore_edge (json_roundtrip (serialize_edge e)) = Some (restored_edge e)"
  by (cases "edge_type e"; cases "markerEnd e"; (cases "the (markerEnd e)")?)
     (simp_all add: restore_edge_def serialize_edge_def js_opt_def serialize_marker_def
        restore_edge_type_def restore_marker_def restored_edge_def)

lemma edge_throws_serialize: "\<not> edge_throws (json_roundtrip (serialize_edge e))"
  by (simp add: edge_throws_def serialize_edge_def)

lemma those_map_Some: "(\<And>x. x \<in> set xs \<Longrightarrow> f x = Some (h x)) \<Longrightarrow> those (map f xs) = Some (map h xs)"
  by (induction xs) simp_all

lemma serialize_node_defined [simp]: "serialize_node n \<noteq> JUndefined"
  by (simp add: serialize_node_def)

lemma serialize_edge_defined [simp]: "serialize_edge e \<noteq> JUndefined"
  by (simp add: serialize_edge_def)

lemma restore_viewport_serialize:
  "restore_viewport (json_roundtrip (serialize_viewport v)) w = Some v"
  by (simp add: restore_viewport_def serialize_viewport_def)

lemma importState_serializeState:
  "importState (Some (json_roundtrip (serializeState g exportedAt))) g0 =
     (True, Some \<lparr>nodes = map restored_node (nodes g), edges = map restored_edge (edges g),
                  viewport = viewport g\<rparr>)"
proof -
  have ns: "those (map restore_node (map (\<lambda>x. json_roundtrip (serialize_node x)) (nodes g)))
            = Some (map restored_node (nodes g))"
    unfolding map_map comp_def
    by (rule those_map_Some) (rule restore_node_serialize)
  have es: "those (map restore_edge (map (\<lambda>x. json_roundtrip (serialize_edge x)) (edges g)))
            = Some (map restored_edge (edges g))"
    unfolding map_map comp_def
    by (rule those_map_Some) (rule restore_edge_serialize)
  have vp: "serialize_viewport (viewport g) \<noteq> JUndefined"
    by (simp add: serialize_viewport_def)
  show ?thesis
    using ns es
    by (simp add: importState_def serializeState_def restored_graph_def comp_def
        list_ex_iff node_throws_serialize edge_throws_serialize
        restore_viewport_serialize vp)
qed

lemma js_get_role_None: "js_get d ''role'' = None \<longleftrightarrow> d = JNull \<or> d = JUndefined"
  by (cases d) simp_all

lemma node_throws_iff:
  "node_throws n \<longleftrightarrow> \<not> (\<exists>d. js_get n ''data'' = Some d \<and> d \<noteq> JNull \<and> d \<noteq> JUndefined)"
  by (auto simp: node_throws_def js_get_role_None split: option.splits)

lemma edge_throws_iff: "edge_throws e \<longleftrightarrow> e = JNull \<or> e = JUndefined"
  by (cases e) (simp_all add: edge_throws_def)

lemma truthy_JArr_iff: "(\<exists>xs. v = JArr xs) \<Longrightarrow> truthy v"
  by auto

lemma importState_false_unchanged:
  "fst (importState parsed g) \<or> importState parsed g = (False, Some g)"
  by (simp add: importState_def split: option.splits jsval.splits)

lemma importState_true_iff:
  "fst (importState parsed g) \<longleftrightarrow>
     (\<exists>state nl el. parsed = Some state \<and>
        js_get state ''nodes'' = Some (JArr nl) \<and> js_get state ''edges'' = Some (JArr el) \<and>
        \<not> list_ex node_throws nl \<and> \<not> list_ex edge_throws el)"
proof (cases parsed)
  case None
  then show ?thesis by (simp add: importState_def)
next
  case (Some state)
  show ?thesis
  proof (cases "js_get state ''nodes''")
    case None
    then show ?thesis using Some by (simp add: importState_def)
  next
    case ns: (Some ns)
    then obtain es v where es: "js_get state ''edges'' = Some es"
      and v: "js_get state ''viewport'' = Some v"
      by (cases state) simp_all
    show ?thesis
      using Some ns es v
      by (cases ns; cases es) (simp_all add: importState_def)
  qed
qed

section \<open>Properties of the navigation engine\<close>

lemma or_zero_id [simp]: "or_zero t = t"
  by (simp add: or_zero_def)

lemma find_present: "x \<in> set xs \<Longrightarrow> find (\<lambda>n. node_id n = node_id x) xs \<noteq> None"
  by (auto simp: find_None_iff)

lemma find_id: "find (\<lambda>n. node_id n = v) xs = Some x \<Longrightarrow> node_id x = v \<and> x \<in> set xs"
  by (auto simp: find_Some_iff)

lemma target_nodes_subset: "set (target_nodes ns es) \<subseteq> set ns"
  by (auto simp: target_nodes_def List.map_filter_def dest: find_id)

lemma sort_key_hd_least:
  assumes "sort_key f xs = y # ys" and "x \<in> set xs"
  shows "f y \<le> f x"
proof -
  have "sorted (map f (y # ys))"
    using sorted_sort_key [of f xs] assms(1) by simp
  moreover have "x \<in> set (y # ys)"
    using assms set_sort [of f xs] by (metis)
  ultimately show ?thesis by auto
qed

lemma handleKeyDown_focused:
  assumes "find (\<lambda>n. node_id n = cur) ns \<noteq> None" and "cur \<noteq> []"
  shows "handleKeyDown key ns es (Some cur) =
     (let next = nextNodeId key ns es cur
      in if truthy_id next then focusNode ns (the next) (Some cur) else Some cur)"
proof -
  from assms(1) obtain x where "find (\<lambda>n. node_id n = cur) ns = Some x" by blast
  moreover from assms(1) have "ns \<noteq> []" by auto
  ultimately show ?thesis
    using assms(2) by (simp add: handleKeyDown_def truthy_id_def Let_def)
qed

lemma findIndex_append_last:
  "\<forall>x\<in>set xs. \<not> P x \<Longrightarrow> P c \<Longrightarrow> findIndex P (xs @ [c]) = Some (length xs)"
  by (induction xs) simp_all

lemma to_child_newest:
  assumes ids: "\<forall>n\<in>set ns. node_id n \<noteq> []"
    and foc: "find (\<lambda>n. node_id n = cur) ns \<noteq> None"
    and kids: "children_of ns es cur \<noteq> []"
  shows "\<exists>c\<in>set (children_of ns es cur).
           handleKeyDown ArrowDown ns es (Some cur) = Some (node_id c) \<and>
           (\<forall>k\<in>set (children_of ns es cur). timestamp (data k) \<le> timestamp (data c))"
proof -
  let ?out = "filter (\<lambda>e. source e = cur) es"
  let ?kids = "children_of ns es cur"
  let ?sorted = "sort_key (\<lambda>n. - timestamp (data n)) ?kids"
  from foc obtain x where "find (\<lambda>n. node_id n = cur) ns = Some x" by blast
  with ids have cur: "cur \<noteq> []" by (auto dest: find_id)
  from kids have out: "?out \<noteq> []"
    by (auto simp: children_of_def target_nodes_def map_filter_simps)
  from kids have "?sorted \<noteq> []"
    by (metis length_0_conv length_sort)
  then obtain c rest where s: "?sorted = c # rest"
    by (cases ?sorted) auto
  have cin: "c \<in> set ?kids"
    using s set_sort [of "\<lambda>n. - timestamp (data n)" ?kids] by (metis list.set_intros(1))
  then have cns: "c \<in> set ns"
    using target_nodes_subset by (auto simp: children_of_def)
  have nxt: "nextNodeId ArrowDown ns es cur = Some (node_id c)"
    using out s by (simp add: nextNodeId_def children_of_def Let_def)
  have "handleKeyDown ArrowDown ns es (Some cur) = Some (node_id c)"
    using ids cns find_present [OF cns]
    by (auto simp add: handleKeyDown_focused [OF foc cur] nxt truthy_id_def focusNode_def Let_def)
  moreover have "\<forall>k\<in>set ?kids. timestamp (data k) \<le> timestamp (data c)"
    using sort_key_hd_least [OF s] by auto
  ultimately show ?thesis using cin by blast
qed

lemma to_child_none:
  assumes foc: "find (\<lambda>n. node_id n = cur) ns \<noteq> None" and cur: "cur \<noteq> []"
    and kids: "children_of ns es cur = []"
  shows "handleKeyDown ArrowDown ns es (Some cur) = Some cur"
proof -
  have "nextNodeId ArrowDown ns es cur = None"
    using kids by (simp add: nextNodeId_def children_of_def Let_def)
  then show ?thesis
    by (simp add: handleKeyDown_focused [OF foc cur] truthy_id_def)
qed

lemma siblings_code:
  assumes "find (\<lambda>e. target e = cur) es = Some inc"
  shows "sort_key (\<lambda>n. timestamp (data n))
           (target_nodes ns (filter (\<lambda>e. source e = source inc) es)) = siblings_of ns es cur"
  using assms by (simp add: siblings_of_def parent_of_def children_of_def)

lemma siblings_parent:
  "siblings_of ns es cur \<noteq> [] \<Longrightarrow> \<exists>inc. find (\<lambda>e. target e = cur) es = Some inc"
  by (auto simp: siblings_of_def parent_of_def split: option.splits)

lemma prev_sibling_first:
  assumes foc: "find (\<lambda>n. node_id n = cur) ns \<noteq> None" and cur: "cur \<noteq> []"
    and sib: "siblings_of ns es cur = s # rest" and s: "node_id s = cur"
  shows "handleKeyDown ArrowLeft ns es (Some cur) = Some cur"
proof -
  from sib obtain inc where inc: "find (\<lambda>e. target e = cur) es = Some inc"
    using siblings_parent [of ns es cur] by auto
  have "nextNodeId ArrowLeft ns es cur = None"
    using inc sib s
    by (simp add: nextNodeId_def Let_def siblings_code [OF inc])
  then show ?thesis
    by (simp add: handleKeyDown_focused [OF foc cur] truthy_id_def)
qed

lemma next_sibling_last:
  assumes foc: "find (\<lambda>n. node_id n = cur) ns \<noteq> None" and cur: "cur \<noteq> []"
    and sib: "siblings_of ns es cur = xs @ [c]" and c: "node_id c = cur"
    and once: "cur \<notin> node_id ` set xs"
  shows "handleKeyDown ArrowRight ns es (Some cur) = Some cur"
proof -
  from sib obtain inc where inc: "find (\<lambda>e. target e = cur) es = Some inc"
    using siblings_parent [of ns es cur] by auto
  have "findIndex (\<lambda>n. node_id n = cur) (xs @ [c]) = Some (length xs)"
    using c once by (intro findIndex_append_last) (blast, simp)
  then have "nextNodeId ArrowRight ns es cur = None"
    using inc sib
    by (simp add: nextNodeId_def Let_def siblings_code [OF inc])
  then show ?thesis
    by (simp add: handleKeyDown_focused [OF foc cur] truthy_id_def)
qed

section \<open>The example snapshots, evaluated\<close>

lemma minted_values:
  "input_id 2 = ''input-2''" "ai_id 3 = ''ai-3''" "input_id 5 = ''input-5''" "ai_id 6 = ''ai-6''"
  by (simp_all add: input_id_def ai_id_def show_nat.simps digit_char_def)

lemma scenario_graph_value:
  "scenario_graph =
     \<lparr>nodes = [hd (getInitialNodes 1),
               \<lparr>node_id = ''input-2'', node_type = ''message'', position = origin_pos,
                origin = Some (1/2, 0),
                data = \<lparr>label = None, content = ''hi'', role = User, timestamp = 2,
                        isInput = Some False, onSend = Some (''root'', ''input-2''),
                        onCancel = Some ''input-2''\<rparr>\<rparr>,
               \<lparr>node_id = ''ai-3'', node_type = ''message'',
                position = \<lparr>pos_x = 0, pos_y = 200\<rparr>, origin = Some (1/2, 0),
                data = \<lparr>label = None, content = ''hello'', role = Assistant, timestamp = 3,
                        isInput = None, onSend = None, onCancel = None\<rparr>\<rparr>],
      edges = [(plain_edge ''root'' ''input-2'')\<lparr>sourceHandle := Some ''bottom'', targetHandle := Some ''top''\<rparr>,
               plain_edge ''input-2'' ''ai-3''],
      viewport = unit_viewport\<rparr>"
  by (simp add: scenario_graph_def scenario_ops_def run_def initial_graph_def minted_values
      onConnectEnd_def handleSend_updates_def handleSend_settle_def write_content_def
      written_content_def addEdge_def connectionExists_def falsy_handle_def Let_def
      getInitialNodes_def plain_edge_def origin_pos_def)

section \<open>The handler without a focused node\<close>





lemma fork_values:
  "children_of fork_nodes fork_edges ''root'' =
     [message_node ''a'' User ''x'' 2, message_node ''b'' User ''y'' 3]"
  "children_of fork_nodes fork_edges ''a'' = []"
  "siblings_of fork_nodes fork_edges ''a'' =
     [message_node ''a'' User ''x'' 2, message_node ''b'' User ''y'' 3]"
  "siblings_of fork_nodes fork_edges ''b'' =
     [message_node ''a'' User ''x'' 2, message_node ''b'' User ''y'' 3]"
  by (simp_all add: children_of_def siblings_of_def parent_of_def target_nodes_def
      fork_nodes_def fork_edges_def message_node_def plain_edge_def)

section \<open>The write that ends a backend call\<close>


lemma write_content_edges: "edges (write_content aid c g) = edges g"
  by (simp add: write_content_def)

lemma write_content_written:
  "n \<in> set (nodes (write_content aid c g)) \<Longrightarrow> node_id n = aid \<Longrightarrow> content (data n) = c"
proof -
  assume n: "n \<in> set (nodes (write_content aid c g))" and i: "node_id n = aid"
  from n obtain m where m: "m \<in> set (nodes g)"
    and nm: "n = (if node_id m = aid then m\<lparr>data := (data m)\<lparr>content := c\<rparr>\<rparr> else m)"
    unfolding write_content_def by force
  show ?thesis
  proof (cases "node_id m = aid")
    case True
    with nm show ?thesis by simp
  next
    case False
    with nm i show ?thesis by simp
  qed
qed

lemma write_content_absent:
  "aid \<notin> node_id ` set (nodes g) \<Longrightarrow> write_content aid c g = g"
proof -
  assume a: "aid \<notin> node_id ` set (nodes g)"
  have "map (\<lambda>n. if node_id n = aid then n\<lparr>data := (data n)\<lparr>content := c\<rparr>\<rparr> else n) (nodes g)
        = nodes g"
    using a by (intro map_idI) auto
  then show ?thesis by (simp add: write_content_def)
qed

lemma write_content_nth:
  "i < length (nodes g) \<Longrightarrow>
   nodes (write_content aid c g) ! i =
     (if node_id (nodes g ! i) = aid
      then (nodes g ! i)\<lparr>data := (data (nodes g ! i))\<lparr>content := c\<rparr>\<rparr>
      else nodes g ! i)"
  by (simp add: write_content_def)

section \<open>The placeholder of a submit\<close>

lemma pending_graph_value:
  "pending_graph =
     \<lparr>nodes = [hd (getInitialNodes 1),
               \<lparr>node_id = ''input-2'', node_type = ''message'', position = origin_pos,
                origin = Some (1/2, 0),
                data = \<lparr>label = None, content = ''hi'', role = User, timestamp = 2,
                        isInput = Some False, onSend = Some (''root'', ''input-2''),
                        onCancel = Some ''input-2''\<rparr>\<rparr>,
               \<lparr>node_id = ''ai-3'', node_type = ''message'',
                position = \<lparr>pos_x = 0, pos_y = 200\<rparr>, origin = Some (1/2, 0),
                data = \<lparr>label = None, content = ''Thinking...'', role = Assistant, timestamp = 3,
                        isInput = None, onSend = None, onCancel = None\<rparr>\<rparr>],
      edges = [(plain_edge ''root'' ''input-2'')\<lparr>sourceHandle := Some ''bottom'', targetHandle := Some ''top''\<rparr>,
               plain_edge ''input-2'' ''ai-3''],
      viewport = unit_viewport\<rparr>"
  by (simp add: pending_graph_def scenario_ops_def run_def initial_graph_def minted_values
      onConnectEnd_def handleSend_updates_def addEdge_def connectionExists_def
      falsy_handle_def Let_def getInitialNodes_def plain_edge_def origin_pos_def)


section \<open>One call of the submit handler\<close>



section \<open>The scenario of the specification, step by step\<close>

lemma scenario_path:
  "ancestor_path (nodes scenario_graph) (edges scenario_graph) ''ai-3'' [''ai-3'', ''input-2'', ''root'']"
  by (simp add: scenario_graph_value parent_of_def plain_edge_def getInitialNodes_def)

lemma scenario_graph_unfold:
  "scenario_graph =
     handleSend_settle (BodyJson 200 (Some ''hello'')) (ai_id 3)
        (handleSend_updates 3 3 ''hi'' (input_id 2)
           (onConnectEnd (Some ''root'') None True origin_pos 2 2 (initial_graph 1 unit_viewport)))"
  by (simp add: scenario_graph_def scenario_ops_def run_def)


section \<open>A branch extends the context of its parent\<close>

lemma ancestor_path_ids:
  "ancestor_path ns es v p \<Longrightarrow> u \<in> set p \<Longrightarrow> u \<in> node_id ` set ns"
proof (induction p arbitrary: v)
  case Nil
  then show ?case by simp
next
  case (Cons w rest)
  show ?case
  proof (cases "u = w")
    case True
    from Cons.prems(1) obtain x where "find (\<lambda>n. node_id n = v) ns = Some x" and "w = v"
      by auto
    then show ?thesis using True by (auto dest: find_id)
  next
    case False
    with Cons.prems(2) have u: "u \<in> set rest" by simp
    from Cons.prems(1) u obtain w' where "ancestor_path ns es w' rest"
      by (cases "parent_of es v") auto
    from Cons.IH [OF this u] show ?thesis .
  qed
qed

lemma ancestor_path_cong:
  assumes "ancestor_path ns es v p"
    and "\<And>u. u \<in> set p \<Longrightarrow> find (\<lambda>n. node_id n = u) ns' \<noteq> None"
    and "\<And>u. u \<in> set p \<Longrightarrow> parent_of es' u = parent_of es u"
  shows "ancestor_path ns' es' v p"
  using assms
proof (induction p arbitrary: v)
  case Nil
  then show ?case by simp
next
  case (Cons w rest)
  from Cons.prems(1) have wv: "w = v" and ne: "v \<noteq> []" by simp_all
  have f: "find (\<lambda>n. node_id n = v) ns' \<noteq> None"
    using Cons.prems(2) [of w] wv by simp
  have par: "parent_of es' v = parent_of es v"
    using Cons.prems(3) [of w] wv by simp
  show ?case
  proof (cases "parent_of es v")
    case None
    with Cons.prems(1) have "rest = []" by simp
    with None wv ne f par show ?thesis by simp
  next
    case (Some q)
    with Cons.prems(1) have r: "rest \<noteq> []" and p: "ancestor_path ns es q rest" by simp_all
    have "ancestor_path ns' es' q rest"
      by (rule Cons.IH [OF p]) (use Cons.prems(2,3) in auto)
    with Some wv ne f par r show ?thesis by simp
  qed
qed

lemma chain_messages_cong:
  "(\<And>u. u \<in> set p \<Longrightarrow> message_of ns' u = message_of ns u) \<Longrightarrow>
   chain_messages ns' p = chain_messages ns p"
  unfolding chain_messages_def by (induction p) simp_all

lemma connectionExists_fresh:
  "target e \<notin> target ` set es \<Longrightarrow> \<not> connectionExists e es"
  unfolding connectionExists_def list_ex_iff by (metis imageI)

lemma branch_submit_shape:
  assumes q: "q \<noteq> []"
    and fn: "input_id t1 \<notin> node_id ` set (nodes g)"
    and fe: "input_id t1 \<notin> target ` set (edges g)" "ai_id t2 \<notin> target ` set (edges g)"
  shows "\<exists>n1 n2 e1 e2.
     nodes (handleSend_updates t2 t2' msg (input_id t1)
              (onConnectEnd (Some q) h True pos t1 t1' g)) = nodes g @ [n1, n2] \<and>
     edges (handleSend_updates t2 t2' msg (input_id t1)
              (onConnectEnd (Some q) h True pos t1 t1' g)) = edges g @ [e1, e2] \<and>
     node_id n1 = input_id t1 \<and> node_type n1 = ''message'' \<and>
     role (data n1) = User \<and> content (data n1) = msg \<and>
     node_id n2 = ai_id t2 \<and> node_type n2 = ''message'' \<and>
     role (data n2) = Assistant \<and> content (data n2) = ''Thinking...'' \<and>
     source e1 = q \<and> target e1 = input_id t1 \<and>
     source e2 = input_id t1 \<and> target e2 = ai_id t2"
proof -
  let ?g1 = "onConnectEnd (Some q) h True pos t1 t1' g"
  have e1: "\<exists>e1. edges ?g1 = edges g @ [e1] \<and> source e1 = q \<and> target e1 = input_id t1"
    using q fe(1) by (simp add: onConnectEnd_def Let_def addEdge_def connectionExists_fresh)
  have n1: "\<exists>n1. nodes ?g1 = nodes g @ [n1] \<and> node_id n1 = input_id t1"
    using q by (simp add: onConnectEnd_def Let_def)
  from e1 obtain e1 where e1: "edges ?g1 = edges g @ [e1]" "source e1 = q" "target e1 = input_id t1"
    by blast
  from n1 obtain n1 where n1: "nodes ?g1 = nodes g @ [n1]" "node_id n1 = input_id t1"
    by blast
  have keep: "map (\<lambda>node. if node_id node = input_id t1
                then node\<lparr>node_type := ''message'',
                          data := (data node)\<lparr>role := User, content := msg, isInput := Some False\<rparr>\<rparr>
                else node) (nodes g) = nodes g"
    using fn by (intro map_idI) (metis imageI)
  have fresh2: "target \<lparr>edge_id = ''e-'' @ input_id t1 @ ''-'' @ ai_id t2,
              source = input_id t1, target = ai_id t2,
              edge_type = Some ''smoothstep'', markerEnd = Some ArrowClosed,
              sourceHandle = None, targetHandle = None\<rparr> \<notin> target ` set (edges g @ [e1])"
    using fe(2) e1(3) by simp
  show ?thesis
    using keep n1 e1 connectionExists_fresh [OF fresh2]
    by (simp add: handleSend_updates_def Let_def addEdge_def)
qed

lemma find_append_if:
  "find P (xs @ ys) = (case find P xs of None \<Rightarrow> find P ys | Some x \<Rightarrow> Some x)"
  by (induction xs) simp_all

lemma find_absent: "v \<notin> f ` set xs \<Longrightarrow> find (\<lambda>x. f x = v) xs = None"
  unfolding find_None_iff by (metis imageI)

lemma find_in_old:
  "v \<in> node_id ` set ns \<Longrightarrow>
   find (\<lambda>n. node_id n = v) (ns @ ys) = find (\<lambda>n. node_id n = v) ns \<and>
   find (\<lambda>n. node_id n = v) ns \<noteq> None"
proof -
  assume "v \<in> node_id ` set ns"
  then have "find (\<lambda>n. node_id n = v) ns \<noteq> None"
    unfolding find_None_iff by blast
  then show ?thesis
    by (auto simp: find_append_if)
qed

lemma branch_submit_context:
  assumes path: "ancestor_path (nodes g) (edges g) q P"
    and fn: "input_id t1 \<notin> node_id ` set (nodes g)" "ai_id t2 \<notin> node_id ` set (nodes g)"
    and fe: "input_id t1 \<notin> target ` set (edges g)" "ai_id t2 \<notin> target ` set (edges g)"
  shows "getContextForNode (ai_id t2)
           (nodes (handleSend_updates t2 t2' msg (input_id t1)
                     (onConnectEnd (Some q) h True pos t1 t1' g)))
           (edges (handleSend_updates t2 t2' msg (input_id t1)
                     (onConnectEnd (Some q) h True pos t1 t1' g))) =
         Some (chain_messages (nodes g) (rev P) @
               [\<lparr>msg_role = User, msg_content = msg\<rparr>,
                \<lparr>msg_role = Assistant, msg_content = ''Thinking...''\<rparr>])"
proof -
  let ?g2 = "handleSend_updates t2 t2' msg (input_id t1) (onConnectEnd (Some q) h True pos t1 t1' g)"
  from path have q: "q \<noteq> []" and P: "P \<noteq> []" by (cases P; simp)+
  from branch_submit_shape [OF q fn(1) fe, of t2' msg h pos t1']
  obtain n1 n2 e1 e2 where ns: "nodes ?g2 = nodes g @ [n1, n2]"
    and es: "edges ?g2 = edges g @ [e1, e2]"
    and n1: "node_id n1 = input_id t1" "node_type n1 = ''message''"
      "role (data n1) = User" "content (data n1) = msg"
    and n2: "node_id n2 = ai_id t2" "node_type n2 = ''message''"
      "role (data n2) = Assistant" "content (data n2) = ''Thinking...''"
    and e1: "source e1 = q" "target e1 = input_id t1"
    and e2: "source e2 = input_id t1" "target e2 = ai_id t2"
    by blast
  have old: "u \<noteq> input_id t1 \<and> u \<noteq> ai_id t2 \<and> u \<in> node_id ` set (nodes g)"
    if "u \<in> set P" for u
    using ancestor_path_ids [OF path that] fn by metis
  have old_find: "find (\<lambda>n. node_id n = u) (nodes ?g2) = find (\<lambda>n. node_id n = u) (nodes g)"
    "find (\<lambda>n. node_id n = u) (nodes ?g2) \<noteq> None" if "u \<in> set P" for u
    using find_in_old [of u "nodes g" "[n1, n2]"] old [OF that] unfolding ns by simp_all
  have old_parent: "parent_of (edges ?g2) u = parent_of (edges g) u" if "u \<in> set P" for u
    using old [OF that] e1 e2 unfolding es parent_of_def
    by (auto simp: find_append_if split: option.splits)
  have pathP: "ancestor_path (nodes ?g2) (edges ?g2) q P"
    by (rule ancestor_path_cong [OF path old_find(2) old_parent])
  have f1: "find (\<lambda>n. node_id n = input_id t1) (nodes ?g2) = Some n1"
    unfolding ns using find_absent [OF fn(1)] n1 by (simp add: find_append_if)
  have f2: "find (\<lambda>n. node_id n = ai_id t2) (nodes ?g2) = Some n2"
    unfolding ns using find_absent [OF fn(2)] n1 n2 by (simp add: find_append_if)
  have p1: "parent_of (edges ?g2) (input_id t1) = Some q"
    unfolding es parent_of_def using find_absent [OF fe(1)] e1 by (simp add: find_append_if)
  have p2: "parent_of (edges ?g2) (ai_id t2) = Some (input_id t1)"
    unfolding es parent_of_def using find_absent [OF fe(2)] e1 e2 by (simp add: find_append_if)
  have full: "ancestor_path (nodes ?g2) (edges ?g2) (ai_id t2) (ai_id t2 # input_id t1 # P)"
    using pathP P f1 f2 p1 p2 by simp
  have msgs: "chain_messages (nodes ?g2) (rev P) = chain_messages (nodes g) (rev P)"
    by (rule chain_messages_cong) (simp add: message_of_def old_find(1))
  from context_loop_path [OF full, of "[]"] show ?thesis
    using msgs f1 f2 n1 n2
    by (simp add: getContextForNode_def chain_messages_def message_of_def)
qed

section \<open>The claims\<close>

subsection \<open>C1: the context resolver\<close>

text \<open>
  C1, as amended. Whenever the ancestor path \<open>p\<close> of the node exists (the walk along first
  incoming edges reaches a node with no incoming edge, through non-empty ids that name nodes
  of the list), \<^verbatim>\<open>getContextForNode\<close> returns, and what it returns is exactly the
  (role, content) pairs of the message-type nodes of the path, from the root down to and
  including the given node, each once and in that order, input nodes skipped. In particular,
  when a branch is started from a node \<open>q\<close> that has such a path and is then submitted, with
  ids that are new to the snapshot, resolving the new assistant node returns the turns of
  \<open>q\<close>'s path followed by the new user turn and the assistant's turn, whatever else (sibling
  branches) the snapshot holds; so sequential submits along one branch add their turns in
  creation order, without duplicate or gap.
\<close>

theorem getContextForNode_ancestor_chain:
  "(ancestor_path ns es v p \<longrightarrow>
      getContextForNode v ns es = Some (chain_messages ns (rev p))) \<and>
   (ancestor_path (nodes g) (edges g) q P \<and>
    input_id t1 \<notin> node_id ` set (nodes g) \<and> ai_id t2 \<notin> node_id ` set (nodes g) \<and>
    input_id t1 \<notin> target ` set (edges g) \<and> ai_id t2 \<notin> target ` set (edges g) \<longrightarrow>
      getContextForNode (ai_id t2)
        (nodes (handleSend_updates t2 t2' msg (input_id t1)
                  (onConnectEnd (Some q) h True pos t1 t1' g)))
        (edges (handleSend_updates t2 t2' msg (input_id t1)
                  (onConnectEnd (Some q) h True pos t1 t1' g))) =
      Some (chain_messages (nodes g) (rev P) @
            [\<lparr>msg_role = User, msg_content = msg\<rparr>,
             \<lparr>msg_role = Assistant, msg_content = ''Thinking...''\<rparr>]))"
proof (intro conjI impI)
  assume "ancestor_path ns es v p"
  from context_loop_path [OF this, of "[]"]
  show "getContextForNode v ns es = Some (chain_messages ns (rev p))"
    by (simp add: getContextForNode_def)
next
  assume a: "ancestor_path (nodes g) (edges g) q P \<and>
    input_id t1 \<notin> node_id ` set (nodes g) \<and> ai_id t2 \<notin> node_id ` set (nodes g) \<and>
    input_id t1 \<notin> target ` set (edges g) \<and> ai_id t2 \<notin> target ` set (edges g)"
  then show "getContextForNode (ai_id t2)
        (nodes (handleSend_updates t2 t2' msg (input_id t1)
                  (onConnectEnd (Some q) h True pos t1 t1' g)))
        (edges (handleSend_updates t2 t2' msg (input_id t1)
                  (onConnectEnd (Some q) h True pos t1 t1' g))) =
      Some (chain_messages (nodes g) (rev P) @
            [\<lparr>msg_role = User, msg_content = msg\<rparr>,
             \<lparr>msg_role = Assistant, msg_content = ''Thinking...''\<rparr>])"
    by (intro branch_submit_context) simp_all
qed

text \<open>
  C1, witness: in the answered scenario the path of the assistant node is the assistant
  node, the user node and the root, and the resolver returns the three turns root first;
  and the branch and submit of the scenario, started from the root alone, give the root's
  greeting, the user's turn and the placeholder.
\<close>

theorem getContextForNode_ancestor_chain_witness:
  "ancestor_path (nodes scenario_graph) (edges scenario_graph) ''ai-3'' [''ai-3'', ''input-2'', ''root''] \<and>
   getContextForNode ''ai-3'' (nodes scenario_graph) (edges scenario_graph) =
     Some [\<lparr>msg_role = Assistant, msg_content = root_greeting\<rparr>,
           \<lparr>msg_role = User, msg_content = ''hi''\<rparr>,
           \<lparr>msg_role = Assistant, msg_content = ''hello''\<rparr>] \<and>
   ancestor_path (nodes (initial_graph 1 unit_viewport)) (edges (initial_graph 1 unit_viewport))
     ''root'' [''root''] \<and>
   getContextForNode ''ai-3'' (nodes pending_graph) (edges pending_graph) =
     Some [\<lparr>msg_role = Assistant, msg_content = root_greeting\<rparr>,
           \<lparr>msg_role = User, msg_content = ''hi''\<rparr>,
           \<lparr>msg_role = Assistant, msg_content = ''Thinking...''\<rparr>]"
proof -
  let ?g0 = "initial_graph 1 unit_viewport"
  have p0: "ancestor_path (nodes ?g0) (edges ?g0) ''root'' [''root'']"
    by (simp add: initial_graph_def getInitialNodes_def parent_of_def)
  have fresh: "input_id 2 \<notin> node_id ` set (nodes ?g0)" "ai_id 3 \<notin> node_id ` set (nodes ?g0)"
    "input_id 2 \<notin> target ` set (edges ?g0)" "ai_id 3 \<notin> target ` set (edges ?g0)"
    by (simp_all add: initial_graph_def getInitialNodes_def)
  have pg: "pending_graph =
      handleSend_updates 3 3 ''hi'' (input_id 2)
        (onConnectEnd (Some ''root'') None True origin_pos 2 2 ?g0)"
    by (simp add: pending_graph_def scenario_ops_def run_def)
  have 1: "getContextForNode ''ai-3'' (nodes scenario_graph) (edges scenario_graph) =
     Some [\<lparr>msg_role = Assistant, msg_content = root_greeting\<rparr>,
           \<lparr>msg_role = User, msg_content = ''hi''\<rparr>,
           \<lparr>msg_role = Assistant, msg_content = ''hello''\<rparr>]"
    using getContextForNode_ancestor_chain
      [of "nodes scenario_graph" "edges scenario_graph" "''ai-3''" "[''ai-3'', ''input-2'', ''root'']"]
      scenario_path
    by (simp add: chain_messages_def message_of_def scenario_graph_value getInitialNodes_def)
  have 2: "getContextForNode ''ai-3'' (nodes pending_graph) (edges pending_graph) =
     Some [\<lparr>msg_role = Assistant, msg_content = root_greeting\<rparr>,
           \<lparr>msg_role = User, msg_content = ''hi''\<rparr>,
           \<lparr>msg_role = Assistant, msg_content = ''Thinking...''\<rparr>]"
    using getContextForNode_ancestor_chain
      [of _ _ _ _ ?g0 "''root''" "[''root'']" 2 3 3 "''hi''" None origin_pos 2] p0 fresh
    unfolding pg [symmetric]
    by (simp add: chain_messages_def message_of_def initial_graph_def getInitialNodes_def
        minted_values)
  from scenario_path 1 p0 2 show ?thesis by blast
qed

text \<open>
  C1, counterexample to the claim as stated ("for every node list and edge list"): on a
  node whose incoming edge is a self-loop the resolver never returns.
\<close>

theorem getContextForNode_cycle_diverges:
  "getContextForNode ''a'' [loop_node] [loop_edge] = None"
proof (cases "getContextForNode ''a'' [loop_node] [loop_edge]")
  case None
  then show ?thesis .
next
  case (Some y)
  then show ?thesis
    using context_loop_self_loop [of "[loop_node]" "[loop_edge]" "Some ''a''" "[]" y]
    by (simp add: getContextForNode_def)
qed

subsection \<open>C2: what a failed backend call leaves in the node\<close>




subsection \<open>C3: serialize, then import\<close>

text \<open>
  C3. For every snapshot \<open>g\<close>, importing the JSON text of \<^verbatim>\<open>serializeState()\<close> succeeds, and
  the restored snapshot has the same node ids, positions, roles, contents and timestamps and
  the same edge ids, sources and targets, in the same order. (Callbacks are not compared;
  \<^verbatim>\<open>origin\<close> and the edge handles, which are not serialized, are not either.)
\<close>

theorem serialize_import_roundtrip:
  "\<exists>g'. importState (Some (json_roundtrip (serializeState g exportedAt))) g0 = (True, Some g') \<and>
     map node_id (nodes g') = map node_id (nodes g) \<and>
     map position (nodes g') = map position (nodes g) \<and>
     map (\<lambda>n. role (data n)) (nodes g') = map (\<lambda>n. role (data n)) (nodes g) \<and>
     map (\<lambda>n. content (data n)) (nodes g') = map (\<lambda>n. content (data n)) (nodes g) \<and>
     map (\<lambda>n. timestamp (data n)) (nodes g') = map (\<lambda>n. timestamp (data n)) (nodes g) \<and>
     map edge_id (edges g') = map edge_id (edges g) \<and>
     map source (edges g') = map source (edges g) \<and>
     map target (edges g') = map target (edges g)"
  unfolding importState_serializeState
  by (simp add: comp_def restored_node_def restored_edge_def)

text \<open>
  C3, at the answered scenario.
\<close>

theorem serialize_import_roundtrip_witness:
  "fst (importState (Some (json_roundtrip (serializeState scenario_graph ''2025-01-01T00:00:00.000Z'')))
          (initial_graph 9 unit_viewport))"
  using serialize_import_roundtrip
    [of scenario_graph "''2025-01-01T00:00:00.000Z''" "initial_graph 9 unit_viewport"]
  by auto

subsection \<open>C4: the scenario\<close>

text \<open>
  C4, as amended. Root, a branch from the root, its submit with "hi", the reply "hello"
  written into the assistant node: resolving the context at the assistant node returns
  three turns, the root's greeting, the user's "hi" and the assistant's own "hello". This
  holds for every clock reading, handle and drop position.
\<close>

theorem scenario_context:
  "getContextForNode (ai_id t2)
     (nodes (handleSend_settle (BodyJson 200 (Some ''hello'')) (ai_id t2)
        (handleSend_updates t2 t2' ''hi'' (input_id t1)
           (onConnectEnd (Some ''root'') h True pos t1 t1' (initial_graph t0 v)))))
     (edges (handleSend_settle (BodyJson 200 (Some ''hello'')) (ai_id t2)
        (handleSend_updates t2 t2' ''hi'' (input_id t1)
           (onConnectEnd (Some ''root'') h True pos t1 t1' (initial_graph t0 v))))) =
   Some [\<lparr>msg_role = Assistant, msg_content = root_greeting\<rparr>,
         \<lparr>msg_role = User, msg_content = ''hi''\<rparr>,
         \<lparr>msg_role = Assistant, msg_content = ''hello''\<rparr>]"
proof -
  let ?g = "handleSend_settle (BodyJson 200 (Some ''hello'')) (ai_id t2)
        (handleSend_updates t2 t2' ''hi'' (input_id t1)
           (onConnectEnd (Some ''root'') h True pos t1 t1' (initial_graph t0 v)))"
  have ns: "map (\<lambda>n. (node_id n, node_type n, role (data n), content (data n))) (nodes ?g) =
      [(''root'', ''message'', Assistant, root_greeting),
       (input_id t1, ''message'', User, ''hi''),
       (ai_id t2, ''message'', Assistant, ''hello'')]"
    by (simp add: handleSend_settle_def write_content_def written_content_def
        handleSend_updates_def onConnectEnd_def initial_graph_def getInitialNodes_def
        root_greeting_def Let_def)
  have es: "map (\<lambda>e. (source e, target e)) (edges ?g) =
      [(''root'', input_id t1), (input_id t1, ai_id t2)]"
    by (simp add: handleSend_settle_def write_content_def
        handleSend_updates_def onConnectEnd_def initial_graph_def addEdge_def
        connectionExists_def Let_def)
  from ns obtain n0 n1 n2 where nodes: "nodes ?g = [n0, n1, n2]"
    and n0: "node_id n0 = ''root''" "node_type n0 = ''message''" "role (data n0) = Assistant"
            "content (data n0) = root_greeting"
    and n1: "node_id n1 = input_id t1" "node_type n1 = ''message''" "role (data n1) = User"
            "content (data n1) = ''hi''"
    and n2: "node_id n2 = ai_id t2" "node_type n2 = ''message''" "role (data n2) = Assistant"
            "content (data n2) = ''hello''"
    by (auto simp: map_eq_Cons_conv)
  from es obtain e1 e2 where edges: "edges ?g = [e1, e2]"
    and e1: "source e1 = ''root''" "target e1 = input_id t1"
    and e2: "source e2 = input_id t1" "target e2 = ai_id t2"
    by (auto simp: map_eq_Cons_conv)
  have "ancestor_path (nodes ?g) (edges ?g) (ai_id t2) [ai_id t2, input_id t1, ''root'']"
    unfolding nodes edges using n0 n1 n2 e1 e2
    by (simp add: parent_of_def)
  from context_loop_path [OF this, of "[]"] show ?thesis
    unfolding nodes using n0 n1 n2
    by (simp add: getContextForNode_def chain_messages_def message_of_def)
qed

text \<open>
  C4, at the clock readings of the example.
\<close>

theorem scenario_context_witness:
  "getContextForNode ''ai-3'' (nodes scenario_graph) (edges scenario_graph) =
     Some [\<lparr>msg_role = Assistant, msg_content = root_greeting\<rparr>,
           \<lparr>msg_role = User, msg_content = ''hi''\<rparr>,
           \<lparr>msg_role = Assistant, msg_content = ''hello''\<rparr>]"
  using scenario_context [of 3 3 2 None origin_pos 2 1 unit_viewport]
  unfolding scenario_graph_unfold [symmetric] by (simp add: minted_values)

text \<open>
  C4, counterexample to the claim as stated: the result is not the two-turn list that
  leaves the assistant's own content out.
\<close>

theorem scenario_context_counterexample:
  "getContextForNode ''ai-3'' (nodes scenario_graph) (edges scenario_graph) \<noteq>
     Some [\<lparr>msg_role = Assistant, msg_content = root_greeting\<rparr>,
           \<lparr>msg_role = User, msg_content = ''hi''\<rparr>]"
  using context_loop_path [OF scenario_path, of "[]"]
  by (simp add: getContextForNode_def chain_messages_def message_of_def scenario_graph_value
      getInitialNodes_def)

subsection \<open>C5: what the import accepts\<close>

text \<open>
  C5, as amended. \<^verbatim>\<open>importState\<close> returns \<^verbatim>\<open>true\<close> exactly when the string parses, the parsed
  value has arrays under \<^verbatim>\<open>nodes\<close> and \<^verbatim>\<open>edges\<close>, every element of \<^verbatim>\<open>nodes\<close> has a \<^verbatim>\<open>data\<close>
  that is neither \<^verbatim>\<open>null\<close> nor missing, and no element of \<^verbatim>\<open>edges\<close> is \<^verbatim>\<open>null\<close>; whenever it
  returns \<^verbatim>\<open>false\<close>, nodes, edges and viewport are exactly as they were.
\<close>

theorem importState_outcome:
  "(fst (importState parsed g) \<longleftrightarrow>
     (\<exists>state nl el. parsed = Some state \<and>
        js_get state ''nodes'' = Some (JArr nl) \<and> js_get state ''edges'' = Some (JArr el) \<and>
        (\<forall>n\<in>set nl. \<exists>d. js_get n ''data'' = Some d \<and> d \<noteq> JNull \<and> d \<noteq> JUndefined) \<and>
        (\<forall>e\<in>set el. e \<noteq> JNull \<and> e \<noteq> JUndefined))) \<and>
   (\<not> fst (importState parsed g) \<longrightarrow> importState parsed g = (False, Some g))"
proof (intro conjI impI)
  show "fst (importState parsed g) \<longleftrightarrow>
     (\<exists>state nl el. parsed = Some state \<and>
        js_get state ''nodes'' = Some (JArr nl) \<and> js_get state ''edges'' = Some (JArr el) \<and>
        (\<forall>n\<in>set nl. \<exists>d. js_get n ''data'' = Some d \<and> d \<noteq> JNull \<and> d \<noteq> JUndefined) \<and>
        (\<forall>e\<in>set el. e \<noteq> JNull \<and> e \<noteq> JUndefined))"
    unfolding importState_true_iff list_ex_iff node_throws_iff edge_throws_iff
    by simp
next
  assume "\<not> fst (importState parsed g)"
  with importState_false_unchanged [of parsed g]
  show "importState parsed g = (False, Some g)"
    by blast
qed

text \<open>
  C5, witness: a string that does not parse and a document whose only node is the number 5
  are refused and leave the snapshot alone; a document whose only edge is the number 5 is
  accepted.
\<close>

theorem importState_outcome_witness:
  "importState None scenario_graph = (False, Some scenario_graph) \<and>
   importState (Some doc_bad_node) scenario_graph = (False, Some scenario_graph) \<and>
   fst (importState (Some doc_bad_edge) scenario_graph)"
proof -
  have 1: "\<not> fst (importState None scenario_graph)"
    using importState_outcome [of None scenario_graph] by simp
  have 2: "\<not> fst (importState (Some doc_bad_node) scenario_graph)"
    using importState_outcome [of "Some doc_bad_node" scenario_graph]
    by (simp add: doc_bad_node_def)
  have 3: "fst (importState (Some doc_bad_edge) scenario_graph)"
    using importState_outcome [of "Some doc_bad_edge" scenario_graph]
    by (simp add: doc_bad_edge_def)
  from 1 2 3 importState_outcome [of None scenario_graph]
    importState_outcome [of "Some doc_bad_node" scenario_graph]
  show ?thesis by blast
qed

text \<open>
  C5, counterexample to the claim as stated: the array \<^verbatim>\<open>[5]\<close> is refused under \<^verbatim>\<open>nodes\<close>
  and accepted under \<^verbatim>\<open>edges\<close>, so the boolean follows neither "is an array" nor "is an
  array of well-formed elements".
\<close>

theorem importState_outcome_counterexample:
  "importState (Some doc_bad_node) scenario_graph = (False, Some scenario_graph) \<and>
   fst (importState (Some doc_bad_edge) scenario_graph)"
  by (simp add: importState_def doc_bad_node_def doc_bad_edge_def node_throws_def
      edge_throws_def)

subsection \<open>C6: to-child and the sibling ends\<close>

text \<open>
  C6, as amended. In a snapshot without an empty node id, with the focus on an existing node:
  ArrowDown moves the focus to a child whose timestamp is greatest among the children
  whenever there is a child, and leaves the focus alone when there is none; ArrowLeft leaves
  the focus alone when the focused node heads the sibling order; ArrowRight leaves it alone
  when the focused node ends the sibling order and no earlier entry has its id.
\<close>

theorem navigation_determinism:
  assumes ids: "\<forall>n\<in>set ns. node_id n \<noteq> []"
    and foc: "find (\<lambda>n. node_id n = cur) ns \<noteq> None"
  shows "(children_of ns es cur \<noteq> [] \<longrightarrow>
            (\<exists>c\<in>set (children_of ns es cur).
               handleKeyDown ArrowDown ns es (Some cur) = Some (node_id c) \<and>
               (\<forall>k\<in>set (children_of ns es cur). timestamp (data k) \<le> timestamp (data c)))) \<and>
         (children_of ns es cur = [] \<longrightarrow> handleKeyDown ArrowDown ns es (Some cur) = Some cur) \<and>
         (\<forall>s rest. siblings_of ns es cur = s # rest \<and> node_id s = cur \<longrightarrow>
            handleKeyDown ArrowLeft ns es (Some cur) = Some cur) \<and>
         (\<forall>xs c. siblings_of ns es cur = xs @ [c] \<and> node_id c = cur \<and> cur \<notin> node_id ` set xs \<longrightarrow>
            handleKeyDown ArrowRight ns es (Some cur) = Some cur)"
proof -
  from foc obtain x where "find (\<lambda>n. node_id n = cur) ns = Some x" by blast
  with ids have cur: "cur \<noteq> []" by (auto dest: find_id)
  show ?thesis
    using to_child_newest [OF ids foc] to_child_none [OF foc cur]
      prev_sibling_first [OF foc cur] next_sibling_last [OF foc cur]
    by blast
qed

text \<open>
  C6, witness: the root with the children \<open>a\<close> (older) and \<open>b\<close> (newer).
\<close>

theorem navigation_determinism_witness:
  "handleKeyDown ArrowDown fork_nodes fork_edges (Some ''root'') = Some ''b'' \<and>
   handleKeyDown ArrowDown fork_nodes fork_edges (Some ''a'') = Some ''a'' \<and>
   handleKeyDown ArrowLeft fork_nodes fork_edges (Some ''a'') = Some ''a'' \<and>
   handleKeyDown ArrowRight fork_nodes fork_edges (Some ''b'') = Some ''b''"
proof -
  have ids: "\<forall>n\<in>set fork_nodes. node_id n \<noteq> []"
    by (simp add: fork_nodes_def message_node_def)
  have f: "find (\<lambda>n. node_id n = ''root'') fork_nodes \<noteq> None"
    "find (\<lambda>n. node_id n = ''a'') fork_nodes \<noteq> None"
    "find (\<lambda>n. node_id n = ''b'') fork_nodes \<noteq> None"
    by (simp_all add: fork_nodes_def message_node_def)
  have 1: "handleKeyDown ArrowDown fork_nodes fork_edges (Some ''root'') = Some ''b''"
    using navigation_determinism [OF ids f(1), of fork_edges]
    by (auto simp: fork_values message_node_def)
  have 2: "handleKeyDown ArrowDown fork_nodes fork_edges (Some ''a'') = Some ''a''"
    and 3: "handleKeyDown ArrowLeft fork_nodes fork_edges (Some ''a'') = Some ''a''"
    using navigation_determinism [OF ids f(2), of fork_edges]
    by (simp_all add: fork_values message_node_def)
  have "siblings_of fork_nodes fork_edges ''b'' =
          [message_node ''a'' User ''x'' 2] @ [message_node ''b'' User ''y'' 3]"
    by (simp add: fork_values)
  then have 4: "handleKeyDown ArrowRight fork_nodes fork_edges (Some ''b'') = Some ''b''"
    using navigation_determinism [OF ids f(3), of fork_edges]
    by (simp add: message_node_def)
  from 1 2 3 4 show ?thesis by simp
qed

text \<open>
  C6, counterexample to the claim as stated ("for every graph snapshot"): the newest of two
  children has the empty string as its id, \<^verbatim>\<open>if (nextNodeId)\<close> takes it for "no target", and
  the focus stays on the parent.
\<close>

theorem navigation_determinism_counterexample:
  "length (children_of blank_nodes blank_edges ''p'') = 2 \<and>
   handleKeyDown ArrowDown blank_nodes blank_edges (Some ''p'') = Some ''p''"
  by (simp add: handleKeyDown_def nextNodeId_def truthy_id_def focusNode_def children_of_def
      target_nodes_def blank_nodes_def blank_edges_def message_node_def plain_edge_def Let_def)

subsection \<open>C7: a navigation key without a focused node\<close>




subsection \<open>C8: the frame of the reply write\<close>

text \<open>
  C8. The write that ends a backend call leaves the edges and the viewport alone and keeps
  the length of the node list; at every position, a node with another id is unchanged and
  a node with the call's id differs from the old one in its content only; when no node has
  the id, the whole snapshot is unchanged.
\<close>

theorem reply_write_frame:
  "edges (handleSend_settle outcome aid g) = edges g \<and>
   viewport (handleSend_settle outcome aid g) = viewport g \<and>
   length (nodes (handleSend_settle outcome aid g)) = length (nodes g) \<and>
   (\<forall>i < length (nodes g).
      nodes (handleSend_settle outcome aid g) ! i =
        (if node_id (nodes g ! i) = aid
         then (nodes g ! i)\<lparr>data := (data (nodes g ! i))\<lparr>content := written_content outcome\<rparr>\<rparr>
         else nodes g ! i)) \<and>
   (aid \<notin> node_id ` set (nodes g) \<longrightarrow> handleSend_settle outcome aid g = g)"
proof (intro conjI allI impI)
  show "edges (handleSend_settle outcome aid g) = edges g"
    by (simp add: handleSend_settle_def write_content_edges)
  show "viewport (handleSend_settle outcome aid g) = viewport g"
    by (simp add: handleSend_settle_def write_content_def)
  show "length (nodes (handleSend_settle outcome aid g)) = length (nodes g)"
    by (simp add: handleSend_settle_def write_content_def)
next
  fix i assume "i < length (nodes g)"
  then show "nodes (handleSend_settle outcome aid g) ! i =
        (if node_id (nodes g ! i) = aid
         then (nodes g ! i)\<lparr>data := (data (nodes g ! i))\<lparr>content := written_content outcome\<rparr>\<rparr>
         else nodes g ! i)"
    unfolding handleSend_settle_def by (rule write_content_nth)
next
  assume "aid \<notin> node_id ` set (nodes g)"
  then show "handleSend_settle outcome aid g = g"
    unfolding handleSend_settle_def by (rule write_content_absent)
qed

text \<open>
  C8, in the scenario: a write to an id that is not there, and a write to the assistant
  node.
\<close>

theorem reply_write_frame_witness:
  "''ai-9'' \<notin> node_id ` set (nodes scenario_graph) \<and>
   handleSend_settle FetchThrows ''ai-9'' scenario_graph = scenario_graph \<and>
   nodes (handleSend_settle FetchThrows ''ai-3'' scenario_graph) ! 1 = nodes scenario_graph ! 1 \<and>
   content (data (nodes (handleSend_settle FetchThrows ''ai-3'' scenario_graph) ! 2)) =
     ''Error: Could not fetch response.''"
proof -
  have a: "''ai-9'' \<notin> node_id ` set (nodes scenario_graph)"
    by (simp add: scenario_graph_value getInitialNodes_def)
  from reply_write_frame [of FetchThrows "''ai-9''" scenario_graph] a
  have 1: "handleSend_settle FetchThrows ''ai-9'' scenario_graph = scenario_graph"
    by blast
  from reply_write_frame [of FetchThrows "''ai-3''" scenario_graph]
  have every: "\<forall>i<length (nodes scenario_graph).
      nodes (handleSend_settle FetchThrows ''ai-3'' scenario_graph) ! i =
        (if node_id (nodes scenario_graph ! i) = ''ai-3''
         then (nodes scenario_graph ! i)\<lparr>data := (data (nodes scenario_graph ! i))\<lparr>content := written_content FetchThrows\<rparr>\<rparr>
         else nodes scenario_graph ! i)"
    by blast
  have 2: "nodes (handleSend_settle FetchThrows ''ai-3'' scenario_graph) ! 1 = nodes scenario_graph ! 1"
    using every [rule_format, of 1] by (simp add: scenario_graph_value)
  have 3: "content (data (nodes (handleSend_settle FetchThrows ''ai-3'' scenario_graph) ! 2)) =
     ''Error: Could not fetch response.''"
    using every [rule_format, of 2]
    by (simp add: scenario_graph_value written_content_def fetchError_def)
  from a 1 2 3 show ?thesis by blast
qed

subsection \<open>C9: the in-degree invariant\<close>

text \<open>
  C9, as amended. Starting from the single-root snapshot, after any sequence of branch
  starts, submits, cancels and reply writes in which no two branch starts read the same
  clock value for their id and no two submits do, every node has at most one incoming edge.
\<close>

theorem in_degree_invariant:
  "distinct (input_clocks ops) \<Longrightarrow> distinct (ai_clocks ops) \<Longrightarrow>
   \<forall>n\<in>set (nodes (run ops (initial_graph now v))). 
      in_degree (edges (run ops (initial_graph now v))) (node_id n) \<le> 1"
  using run_in_degree [of "initial_graph now v" "{}" "{}" ops]
  by (simp add: initial_graph_def in_degree_def minted_def)

text \<open>
  C9, witness: the scenario.
\<close>

theorem in_degree_invariant_witness:
  "distinct (input_clocks scenario_ops) \<and> distinct (ai_clocks scenario_ops) \<and>
   list_all (\<lambda>n. in_degree (edges scenario_graph) (node_id n) \<le> 1) (nodes scenario_graph)"
proof -
  have d: "distinct (input_clocks scenario_ops)" "distinct (ai_clocks scenario_ops)"
    by (simp_all add: scenario_ops_def)
  from in_degree_invariant [OF d, of 1 unit_viewport] d show ?thesis
    by (simp add: list_all_iff scenario_graph_def)
qed

text \<open>
  C9, counterexample to the claim as stated ("after any sequence"): two branch starts that
  read the same clock value mint the same input id, and that id ends with two incoming
  edges.
\<close>

theorem in_degree_invariant_counterexample:
  "input_id 5 \<in> node_id ` set (nodes (run collision_ops (initial_graph 1 unit_viewport))) \<and>
   in_degree (edges (run collision_ops (initial_graph 1 unit_viewport))) (input_id 5) = 2"
  by (simp add: collision_ops_def run_def initial_graph_def minted_values in_degree_def
      onConnectEnd_def handleSend_updates_def addEdge_def connectionExists_def
      falsy_handle_def Let_def getInitialNodes_def)

subsection \<open>C10: a response without a reply\<close>

text \<open>
  C10, as amended. When the body of the response is a JSON value other than \<^verbatim>\<open>null\<close> and its
  \<^verbatim>\<open>reply\<close> is absent, \<^verbatim>\<open>null\<close> or the empty string, the content written is
  "Error: No response": not what a fetch that throws leaves, and not a reply, since every
  non-empty reply is written as it is.
\<close>

theorem missing_reply_fallback:
  "reply = None \<or> reply = Some [] \<Longrightarrow>
   written_content (BodyJson status reply) = ''Error: No response'' \<and>
   written_content (BodyJson status reply) \<noteq> written_content FetchThrows \<and>
   (\<forall>r. r \<noteq> [] \<longrightarrow> written_content (BodyJson status (Some r)) = r) \<and>
   (\<forall>n\<in>set (nodes (handleSend_settle (BodyJson status reply) aid g)).
      node_id n = aid \<longrightarrow> content (data n) = ''Error: No response'')"
proof -
  assume r: "reply = None \<or> reply = Some []"
  then have w: "written_content (BodyJson status reply) = ''Error: No response''"
    by (auto simp: written_content_def noResponse_def)
  have "\<forall>n\<in>set (nodes (handleSend_settle (BodyJson status reply) aid g)).
      node_id n = aid \<longrightarrow> content (data n) = ''Error: No response''"
    using write_content_written [of _ aid "written_content (BodyJson status reply)" g]
    unfolding handleSend_settle_def w by blast
  with w show ?thesis
    by (simp add: written_content_def fetchError_def)
qed

text \<open>
  C10, witness: status 200 with no reply, with an empty reply, and with the reply "hello".
\<close>

theorem missing_reply_fallback_witness:
  "written_content (BodyJson 200 None) = ''Error: No response'' \<and>
   written_content (BodyJson 200 (Some [])) = ''Error: No response'' \<and>
   written_content (BodyJson 200 (Some ''hello'')) = ''hello''"
  using missing_reply_fallback [of None 200 "''ai-3''" scenario_graph]
    missing_reply_fallback [of "Some []" 200 "''ai-3''" scenario_graph]
  by simp

text \<open>
  C10, counterexample to the claim as stated ("every response that parses as JSON"): the
  body \<^verbatim>\<open>null\<close> parses and has no reply, reading \<^verbatim>\<open>data.reply\<close> throws, and the node gets the
  sentinel of the \<^verbatim>\<open>catch\<close> branch.
\<close>

theorem missing_reply_fallback_counterexample:
  "content (data (last (nodes (handleSend_settle (BodyNull 200) (ai_id 3) pending_graph)))) =
     ''Error: Could not fetch response.''"
  by (simp add: handleSend_settle_def write_content_def written_content_def fetchError_def
      pending_graph_value minted_values getInitialNodes_def)

end
